theory Spec2Isabelle
  imports Main "HOL-Library.AList"
begin

section \<open>The ascii screen (class Screen of deferred-simulator.py)\<close>

text \<open>
  \<^verbatim>\<open>self.pixels = {} # (x, y) -> char\<close>: the dictionary is an association list with one
  entry per key. An assignment \<^verbatim>\<open>self.pixels[x,y] = char\<close> replaces the value of a key that
  is present and adds the key otherwise, which is \<^const>\<open>AList.update\<close>; a lookup is
  \<^const>\<open>map_of\<close>; iterating the dictionary visits the keys of the list.
  Coordinates are Python integers (\<^typ>\<open>int\<close>), a pixel is a one-character string
  (\<^typ>\<open>char\<close>).
\<close>

record Screen =
  pixels :: "((int \<times> int) \<times> char) list"

definition Screen_init :: Screen where
  "Screen_init = \<lparr>pixels = []\<rparr>"

definition draw_char :: "int \<Rightarrow> int \<Rightarrow> char \<Rightarrow> Screen \<Rightarrow> Screen" where
  "draw_char x y char s = s\<lparr>pixels := AList.update (x, y) char (pixels s)\<rparr>"

text \<open>\<^verbatim>\<open>range(n)\<close> for an integer n: empty when n is not positive.\<close>

definition py_range :: "int \<Rightarrow> nat list" where
  "py_range n = [0 ..< nat n]"

definition draw_horiz_line :: "int \<Rightarrow> int \<Rightarrow> int \<Rightarrow> Screen \<Rightarrow> Screen" where
  "draw_horiz_line x y width s =
     fold (\<lambda>i. draw_char (x + int i) y CHR ''-'') (py_range width) s"

definition draw_vert_line :: "int \<Rightarrow> int \<Rightarrow> int \<Rightarrow> bool \<Rightarrow> Screen \<Rightarrow> Screen" where
  "draw_vert_line x y height end_arrow s =
     (let s1 = fold (\<lambda>i. draw_char x (y + int i) CHR ''|'') (py_range height) s
      in if end_arrow
         then draw_char (x + 1) (y + height - 1) CHR ''/''
                (draw_char (x - 1) (y + height - 1) (CHR 0x5C) s1)
         else s1)"

text \<open>\<^verbatim>\<open>for i, char in enumerate(text)\<close>.\<close>

definition draw_text :: "int \<Rightarrow> int \<Rightarrow> string \<Rightarrow> Screen \<Rightarrow> Screen" where
  "draw_text x y text s =
     fold (\<lambda>(i, char). draw_char (x + int i) y char) (enumerate 0 text) s"

text \<open>
  \<^verbatim>\<open>__str__\<close>: the two sizes are \<^verbatim>\<open>max([p[0] + 1 for p in self.pixels] + [0])\<close> and
  \<^verbatim>\<open>max([p[1] + 1 for p in self.pixels] + [0])\<close>; the string grows by one character per
  cell and one newline per row.
\<close>

definition Screen_width :: "Screen \<Rightarrow> int" where
  "Screen_width s = Max (set (map (\<lambda>p. fst p + 1) (map fst (pixels s)) @ [0]))"

definition Screen_height :: "Screen \<Rightarrow> int" where
  "Screen_height s = Max (set (map (\<lambda>p. snd p + 1) (map fst (pixels s)) @ [0]))"

definition pixels_get :: "Screen \<Rightarrow> int \<times> int \<Rightarrow> char \<Rightarrow> char" where
  "pixels_get s k d = (case map_of (pixels s) k of None \<Rightarrow> d | Some c \<Rightarrow> c)"

definition Screen_str :: "Screen \<Rightarrow> string" where
  "Screen_str s =
     (let width = Screen_width s; height = Screen_height s
      in fold (\<lambda>y acc.
                 fold (\<lambda>x acc. acc @ [pixels_get s (int x, int y) CHR '' ''])
                      (py_range width) acc @ [CHR 0x0A])
              (py_range height) [])"


section \<open>Library operations the program calls\<close>

text \<open>
  \<^verbatim>\<open>str.center(width)\<close> of Python 2: the string itself when it is at least
  \<^verbatim>\<open>width\<close> long, and otherwise padded with spaces, \<^verbatim>\<open>left = marg/2 + (marg & width & 1)\<close>
  of them on the left, where \<^verbatim>\<open>marg = width - len(s)\<close>, and the rest on the right.
\<close>

definition py_center :: "string \<Rightarrow> int \<Rightarrow> string" where
  "py_center s width =
     (let marg = width - int (length s)
      in if marg \<le> 0 then s
         else let left = marg div 2 + (if odd marg \<and> odd width then 1 else 0)
              in replicate (nat left) CHR '' '' @ s @ replicate (nat (marg - left)) CHR '' '')"

text \<open>
  A result travelling along a Twisted Deferred is a plain value (here always a string) or
  a \<^verbatim>\<open>Failure\<close> wrapping an exception, of which the program reads \<^verbatim>\<open>value.args[0]\<close>
  only. A callback returns a result or raises an exception.
\<close>

datatype pyres = Str string | Failure string

datatype outcome = Returns pyres | Raises string

section \<open>The callback widget (class Callback)\<close>

text \<open>
  The style is one of the three command words of \<^verbatim>\<open>get_cb\<close>. \<^verbatim>\<open>get_cb\<close> builds
  \<^verbatim>\<open>Callback(cmd, word)\<close> for return and fail and \<^verbatim>\<open>Callback(cmd)\<close> for passthru,
  whose value (\<^verbatim>\<open>None\<close>) no method reads: the field holds the empty string there.
\<close>

datatype style = Return | Fail | Passthru

definition style_str :: "style \<Rightarrow> string" where
  "style_str st = (case st of Return \<Rightarrow> ''return'' | Fail \<Rightarrow> ''fail'' | Passthru \<Rightarrow> ''passthru'')"

record Callback =
  style :: style
  cb_value :: string
  min_width :: int

definition Callback_height :: int where
  "Callback_height = 5"

definition Callback_repr :: "Callback \<Rightarrow> string" where
  "Callback_repr self =
     (if style self = Passthru then ''passthru''
      else style_str (style self) @ '' '' @ cb_value self)"

definition Callback_init :: "style \<Rightarrow> string \<Rightarrow> Callback" where
  "Callback_init st v =
     (let self = \<lparr>style = st, cb_value = v, min_width = 0\<rparr>
      in self\<lparr>min_width := int (length (Callback_repr self)) + 4\<rparr>)"

definition Callback_call :: "Callback \<Rightarrow> pyres \<Rightarrow> outcome" where
  "Callback_call self res =
     (if style self = Return then Returns (Str (cb_value self))
      else if style self = Fail then Raises (cb_value self)
      else Returns res)"

definition Callback_draw :: "Callback \<Rightarrow> Screen \<Rightarrow> int \<Rightarrow> int \<Rightarrow> int \<Rightarrow> Screen" where
  "Callback_draw self screen x y width =
     (let s1 = draw_horiz_line x y width screen;
          s2 = draw_horiz_line x (y + 4) width s1;
          s3 = draw_vert_line x (y + 1) 3 False s2;
          s4 = draw_vert_line (x + width - 1) (y + 1) 3 False s3
      in draw_text (x + 1) (y + 2) (py_center (Callback_repr self) (width - 2)) s4)"

section \<open>The deferred widget (class Deferred)\<close>

datatype error = AssertionError

record Deferred =
  pairs :: "(Callback \<times> Callback) list"
  callback_width :: int
  width :: int
  height :: int

text \<open>\<^verbatim>\<open>assert pairs\<close> fails on the empty list; \<^verbatim>\<open>self.pairs[1:]\<close> drops the first pair.\<close>

definition Deferred_init :: "(Callback \<times> Callback) list \<Rightarrow> error + Deferred" where
  "Deferred_init ps =
     (if ps = [] then Inl AssertionError
      else let cw0 = Max (set (map (\<lambda>p. min_width (fst p)) ps @ [0]));
               cw = Max (set (map (\<lambda>p. min_width (snd p)) ps @ [cw0]));
               h = Callback_height * int (length ps)
           in Inr \<lparr>pairs = ps, callback_width = cw, width = cw * 2 + 2,
                   height = h + 3 * int (length (drop 1 ps))\<rparr>)"

section \<open>Firing a deferred (class FiredDeferred)\<close>

text \<open>
  \<^verbatim>\<open>Deferred._runCallbacks\<close> of Twisted: the entries added by \<^verbatim>\<open>addCallbacks\<close> run in
  order; each entry is a pair, of which the second component runs when the current result
  is a \<^verbatim>\<open>Failure\<close> and the first otherwise; a raised exception becomes the result
  wrapped in a \<^verbatim>\<open>Failure\<close>, a returned object becomes the result as it is. The
  callbacks act on a state \<open>'w\<close>.
\<close>

fun isFailure :: "pyres \<Rightarrow> bool" where
  "isFailure (Failure m) = True"
| "isFailure (Str v) = False"

fun runCallbacks ::
  "((pyres \<Rightarrow> 'w \<Rightarrow> outcome \<times> 'w) \<times> (pyres \<Rightarrow> 'w \<Rightarrow> outcome \<times> 'w)) list
     \<Rightarrow> pyres \<Rightarrow> 'w \<Rightarrow> pyres \<times> 'w"
where
  "runCallbacks [] res w = (res, w)"
| "runCallbacks (item # rest) res w =
     (let callback = (if isFailure res then snd item else fst item)
      in case callback res w of
           (Returns r, w') \<Rightarrow> runCallbacks rest r w'
         | (Raises m, w') \<Rightarrow> runCallbacks rest (Failure m) w')"

text \<open>
  The fields \<^verbatim>\<open>height\<close> and \<^verbatim>\<open>width\<close> carry the prefix \<open>fd_\<close>, to keep them apart from
  those of the deferred widget, and so does the field for \<^verbatim>\<open>self.method\<close>.
\<close>

record FiredDeferred =
  deferred :: Deferred
  fd_method :: string
  fd_height :: int
  fd_width :: int

definition FiredDeferred_init :: "Deferred \<Rightarrow> string \<Rightarrow> FiredDeferred" where
  "FiredDeferred_init d m =
     \<lparr>deferred = d, fd_method = m, fd_height = height d + 10, fd_width = width d\<rparr>"

text \<open>
  The objects that the closures of \<^verbatim>\<open>make_drawing_deferred\<close> share and mutate: the screen
  and the \<^verbatim>\<open>DrawState\<close> instance with its fields \<^verbatim>\<open>last_x\<close> and \<^verbatim>\<open>last_y\<close>. Both
  fields are \<^verbatim>\<open>None\<close> until \<^verbatim>\<open>draw_start\<close>, the first callback of the chain, assigns
  them, and nothing reads them before; the model starts them at 0.
  The field \<open>fired\<close> is a history variable that is not in the program: every call of a
  closure made by \<^verbatim>\<open>wrap_callback\<close> appends the widget it calls.
\<close>

record DrawState =
  screen :: Screen
  last_x :: int
  last_y :: int
  fired :: "Callback list"

text \<open>
  The nested functions take the variables they close over as their first arguments:
  \<open>cw\<close> is \<^verbatim>\<open>callback_width\<close>, \<open>x0\<close> and \<open>y0\<close> are the \<^verbatim>\<open>x\<close> and \<^verbatim>\<open>y\<close> of
  \<^verbatim>\<open>make_drawing_deferred\<close>.
\<close>

definition callback_mid_x :: "int \<Rightarrow> int \<Rightarrow> int" where
  "callback_mid_x cw x = x - 1 + cw div 2"

definition errback_left_x :: "int \<Rightarrow> int \<Rightarrow> int" where
  "errback_left_x cw x = x + cw + 2"

definition errback_mid_x :: "int \<Rightarrow> int \<Rightarrow> int" where
  "errback_mid_x cw x = errback_left_x cw x - 1 + cw div 2"


definition draw_connection :: "int \<Rightarrow> int \<Rightarrow> int \<Rightarrow> DrawState \<Rightarrow> DrawState" where
  "draw_connection cw x0 x st =
     (if last_x st = x
      then st\<lparr>screen := draw_vert_line (x - 1 + cw div 2) (last_y st - 3) 3 True (screen st)\<rparr>
      else
        let s1 =
              (if last_x st < x
               then draw_vert_line (errback_mid_x cw x0) (last_y st - 2) 2 True
                      (draw_vert_line (callback_mid_x cw x0) (last_y st - 3) 2 False (screen st))
               else draw_vert_line (callback_mid_x cw x0) (last_y st - 2) 2 True
                      (draw_vert_line (errback_mid_x cw x0) (last_y st - 3) 2 False (screen st)))
        in st\<lparr>screen := draw_horiz_line (callback_mid_x cw x0 + 1) (last_y st - 2)
                            (errback_mid_x cw x0 - callback_mid_x cw x0 - 1) s1\<rparr>)"

definition wrap_callback ::
  "int \<Rightarrow> int \<Rightarrow> Callback \<Rightarrow> int \<Rightarrow> pyres \<Rightarrow> DrawState \<Rightarrow> outcome \<times> DrawState" where
  "wrap_callback cw x0 cb x res st =
     (let st1 = st\<lparr>screen := Callback_draw cb (screen st) x (last_y st) cw\<rparr>;
          st2 = draw_connection cw x0 x st1;
          st3 = st2\<lparr>last_x := x\<rparr>;
          st4 = st3\<lparr>last_y := last_y st3 + (Callback_height + 3)\<rparr>
      in (Callback_call cb res, st4\<lparr>fired := fired st4 @ [cb]\<rparr>))"

definition draw_value :: "int \<Rightarrow> int \<Rightarrow> pyres \<Rightarrow> int \<Rightarrow> Screen \<Rightarrow> Screen" where
  "draw_value cw x0 res y scr =
     (case res of
        Failure m \<Rightarrow>
          draw_text (errback_left_x cw x0 - 10) y
            (py_center (''Exception('' @ m @ '')'') (cw + 20)) scr
      | Str v \<Rightarrow> draw_text x0 y (py_center v cw) scr)"

definition draw_start :: "int \<Rightarrow> int \<Rightarrow> int \<Rightarrow> pyres \<Rightarrow> DrawState \<Rightarrow> outcome \<times> DrawState" where
  "draw_start cw x0 y0 res st =
     (let st1 = st\<lparr>screen := draw_value cw x0 res y0 (screen st)\<rparr>;
          st2 = (if isFailure res then st1\<lparr>last_x := errback_left_x cw x0\<rparr>
                 else st1\<lparr>last_x := x0\<rparr>)
      in (Returns res, st2\<lparr>last_y := y0 + 4\<rparr>))"

text \<open>
  \<^verbatim>\<open>draw_end\<close> returns \<^verbatim>\<open>None\<close>, which becomes the final result of the Deferred and
  which nothing reads: the model returns the state only.
\<close>

definition draw_end :: "int \<Rightarrow> int \<Rightarrow> pyres \<Rightarrow> DrawState \<Rightarrow> DrawState" where
  "draw_end cw x0 res st =
     (let st1 = st\<lparr>screen := draw_value cw x0 res (last_y st) (screen st)\<rparr>
      in if isFailure res then draw_connection cw x0 (errback_left_x cw x0) st1
         else draw_connection cw x0 x0 st1)"

text \<open>
  The chain of \<^verbatim>\<open>make_drawing_deferred\<close> up to its last pair: \<^verbatim>\<open>addBoth(draw_start)\<close>,
  then one \<^verbatim>\<open>addCallbacks(callback, errback)\<close> for each pair. The closing
  \<^verbatim>\<open>addBoth(draw_end)\<close> is applied by \<open>fire\<close> to the result that leaves this chain.
\<close>

definition make_drawing_deferred ::
  "FiredDeferred \<Rightarrow> int \<Rightarrow> int
     \<Rightarrow> ((pyres \<Rightarrow> DrawState \<Rightarrow> outcome \<times> DrawState) \<times> (pyres \<Rightarrow> DrawState \<Rightarrow> outcome \<times> DrawState)) list"
where
  "make_drawing_deferred self x y =
     (let cw = callback_width (deferred self)
      in (draw_start cw x y, draw_start cw x y) #
         map (\<lambda>pair. (wrap_callback cw x (fst pair) x,
                       wrap_callback cw x (snd pair) (errback_left_x cw x)))
             (pairs (deferred self)))"

text \<open>
  \<^verbatim>\<open>FiredDeferred.draw\<close>: \<^verbatim>\<open>d.callback(result)\<close> fires the chain with the plain value,
  \<^verbatim>\<open>d.errback(Exception(result))\<close> with the exception wrapped in a \<^verbatim>\<open>Failure\<close>.
  \<open>fire\<close> is the run of the whole chain, \<^verbatim>\<open>draw_end\<close> included, and gives the final
  state; \<open>fire_chain\<close> stops in front of \<^verbatim>\<open>draw_end\<close> and also gives the result that
  \<^verbatim>\<open>draw_end\<close> receives.
\<close>

definition fire_chain :: "FiredDeferred \<Rightarrow> Screen \<Rightarrow> int \<Rightarrow> int \<Rightarrow> string \<Rightarrow> pyres \<times> DrawState" where
  "fire_chain self scr x y result =
     (let d = make_drawing_deferred self x y;
          st = \<lparr>screen = scr, last_x = 0, last_y = 0, fired = []\<rparr>
      in if fd_method self = ''callback''
         then runCallbacks d (Str result) st
         else runCallbacks d (Failure result) st)"

definition fire :: "FiredDeferred \<Rightarrow> Screen \<Rightarrow> int \<Rightarrow> int \<Rightarrow> string \<Rightarrow> DrawState" where
  "fire self scr x y result =
     (case fire_chain self scr x y result of
        (res, st) \<Rightarrow> draw_end (callback_width (deferred self)) x res st)"

definition FiredDeferred_draw :: "FiredDeferred \<Rightarrow> Screen \<Rightarrow> int \<Rightarrow> int \<Rightarrow> string \<Rightarrow> Screen" where
  "FiredDeferred_draw self scr x y result = screen (fire self scr x y result)"

section \<open>The program (main)\<close>

text \<open>
  \<^verbatim>\<open>get_pairs\<close> reads the pairs from the terminal; \<open>main\<close> takes them as its argument and
  gives the text that \<^verbatim>\<open>print screen\<close> writes, without the newline that \<^verbatim>\<open>print\<close> adds.
\<close>

definition main_screen :: "Deferred \<Rightarrow> Screen" where
  "main_screen d =
     (let callback = FiredDeferred_init d ''callback'';
          errback = FiredDeferred_init d ''errback'';
          scr = Screen_init;
          scr1 = FiredDeferred_draw callback scr 0 0 ''initial''
      in FiredDeferred_draw errback scr1 (width d + 12) 0 ''initial'')"

definition main :: "(Callback \<times> Callback) list \<Rightarrow> error + string" where
  "main ps =
     (case Deferred_init ps of
        Inl e \<Rightarrow> Inl e
      | Inr d \<Rightarrow> Inr (Screen_str (main_screen d)))"

section \<open>Notions used in the statements\<close>

text \<open>The keys of the pixel dictionary, and one row of the rendered text.\<close>

definition Screen_keys :: "Screen \<Rightarrow> (int \<times> int) set" where
  "Screen_keys s = set (map fst (pixels s))"

definition Screen_row :: "Screen \<Rightarrow> nat \<Rightarrow> string" where
  "Screen_row s y = map (\<lambda>x. pixels_get s (int x, int y) CHR '' '') (py_range (Screen_width s))"

text \<open>
  The sizes as the specification words them: the maximum set coordinate plus 1, and 0
  for an empty canvas.
\<close>

definition spec_width :: "Screen \<Rightarrow> int" where
  "spec_width s = (if pixels s = [] then 0 else Max (set (map (\<lambda>p. fst (fst p)) (pixels s))) + 1)"

definition spec_height :: "Screen \<Rightarrow> int" where
  "spec_height s = (if pixels s = [] then 0 else Max (set (map (\<lambda>p. snd (fst p)) (pixels s))) + 1)"

text \<open>A widget as \<^verbatim>\<open>Callback.__init__\<close> leaves it.\<close>

definition wf_Callback :: "Callback \<Rightarrow> bool" where
  "wf_Callback cb = (cb = Callback_init (style cb) (cb_value cb))"

text \<open>The pixel dictionary as a map, and a run of assignments to it.\<close>

definition Screen_map :: "Screen \<Rightarrow> (int \<times> int) \<rightharpoonup> char" where
  "Screen_map s = map_of (pixels s)"

definition upds :: "('a \<Rightarrow> int \<times> int) \<Rightarrow> ('a \<Rightarrow> char) \<Rightarrow> 'a list
    \<Rightarrow> ((int \<times> int) \<rightharpoonup> char) \<Rightarrow> ((int \<times> int) \<rightharpoonup> char)" where
  "upds fk fc es m = fold (\<lambda>e m. m(fk e \<mapsto> fc e)) es m"

text \<open>The cells of the columns from \<open>lo\<close> to \<open>hi\<close>.\<close>

definition cols :: "int \<Rightarrow> int \<Rightarrow> (int \<times> int) set" where
  "cols lo hi = {k. lo \<le> fst k \<and> fst k \<le> hi}"

text \<open>Two screens of which the first holds the second laid over a background \<open>b\<close>.\<close>

definition Screen_rel :: "((int \<times> int) \<rightharpoonup> char) \<Rightarrow> Screen \<Rightarrow> Screen \<Rightarrow> bool" where
  "Screen_rel b s s' = (Screen_map s = b ++ Screen_map s')"

text \<open>The result that the callback loop takes from what a callback did.\<close>

definition next_res :: "outcome \<Rightarrow> pyres" where
  "next_res out = (case out of Returns r \<Rightarrow> r | Raises m \<Rightarrow> Failure m)"

text \<open>The entries that \<^verbatim>\<open>make_drawing_deferred\<close> adds for the pairs.\<close>

definition wrap_pairs ::
  "int \<Rightarrow> int \<Rightarrow> (Callback \<times> Callback) list
     \<Rightarrow> ((pyres \<Rightarrow> DrawState \<Rightarrow> outcome \<times> DrawState) \<times> (pyres \<Rightarrow> DrawState \<Rightarrow> outcome \<times> DrawState)) list"
where
  "wrap_pairs cw x0 ps =
     map (\<lambda>pair. (wrap_callback cw x0 (fst pair) x0,
                   wrap_callback cw x0 (snd pair) (errback_left_x cw x0))) ps"

text \<open>
  The widgets that the callback loop calls along the entries of the pairs, in order: at
  each pair the errback when the current result is a failure and the callback otherwise,
  the result of the call being the current result of the next pair.
\<close>

fun called :: "(Callback \<times> Callback) list \<Rightarrow> pyres \<Rightarrow> Callback list" where
  "called [] r = []"
| "called (p # ps) r =
     (let h = (if isFailure r then snd p else fst p)
      in h # called ps (next_res (Callback_call h r)))"

text \<open>
  Two states of a run that agree on everything but the screen, where the screen of the
  first holds that of the second laid over the background \<open>b\<close>; and a callback that
  keeps two such states so and does the same in both.
\<close>

definition DrawState_rel :: "((int \<times> int) \<rightharpoonup> char) \<Rightarrow> DrawState \<Rightarrow> DrawState \<Rightarrow> bool" where
  "DrawState_rel b st st' =
     (Screen_rel b (screen st) (screen st') \<and> last_x st = last_x st' \<and> last_y st = last_y st'
      \<and> fired st = fired st')"

definition keeps_rel :: "((int \<times> int) \<rightharpoonup> char) \<Rightarrow> (pyres \<Rightarrow> DrawState \<Rightarrow> outcome \<times> DrawState) \<Rightarrow> bool" where
  "keeps_rel b f = (\<forall>res st st'. DrawState_rel b st st' \<longrightarrow>
      fst (f res st) = fst (f res st') \<and> DrawState_rel b (snd (f res st)) (snd (f res st')))"

text \<open>
  A widget whose label, with the margin of 4, fits the cell width; a result whose text
  fits where \<^verbatim>\<open>draw_value\<close> centres it; and the columns that a run placed at \<open>x0\<close> may
  draw on.
\<close>

definition label_fits :: "int \<Rightarrow> Callback \<Rightarrow> bool" where
  "label_fits cw cb = (int (length (Callback_repr cb)) + 4 \<le> cw)"

definition res_fits :: "int \<Rightarrow> pyres \<Rightarrow> bool" where
  "res_fits cw res =
     (case res of Str v \<Rightarrow> int (length v) \<le> cw | Failure m \<Rightarrow> int (length m) \<le> cw + 9)"

definition box :: "int \<Rightarrow> int \<Rightarrow> (int \<times> int) set" where
  "box cw x0 = cols x0 (x0 + 2 * cw + 11)"

text \<open>
  The two runs of \<^verbatim>\<open>main\<close>, each drawn on a canvas of its own, at the place where
  \<^verbatim>\<open>main\<close> draws it.
\<close>

definition first_run :: "Deferred \<Rightarrow> Screen" where
  "first_run d = FiredDeferred_draw (FiredDeferred_init d ''callback'') Screen_init 0 0 ''initial''"

definition second_run :: "Deferred \<Rightarrow> Screen" where
  "second_run d =
     FiredDeferred_draw (FiredDeferred_init d ''errback'') Screen_init (width d + 12) 0 ''initial''"

subsection \<open>The executor as the specification words it\<close>

text \<open>
  The state of the executor of the specification is a track and a payload. At each pair
  the handler matching the track is selected (step 2a); applying it moves to the failure
  track with the failure as payload when it raises, to the success track with the value
  as payload when it returns a plain value, and changes nothing when it passes its input
  through (step 2d). \<open>spec_executor\<close> gives the handlers fired, in order, and the final
  state.
\<close>

datatype track = OnSuccess | OnFailure

definition spec_select :: "Callback \<times> Callback \<Rightarrow> track \<Rightarrow> Callback" where
  "spec_select pair t = (case t of OnSuccess \<Rightarrow> fst pair | OnFailure \<Rightarrow> snd pair)"

definition spec_apply :: "Callback \<Rightarrow> track \<times> string \<Rightarrow> track \<times> string" where
  "spec_apply h tp =
     (case style h of
        Return \<Rightarrow> (OnSuccess, cb_value h)
      | Fail \<Rightarrow> (OnFailure, cb_value h)
      | Passthru \<Rightarrow> tp)"

fun spec_executor ::
  "(Callback \<times> Callback) list \<Rightarrow> track \<times> string \<Rightarrow> Callback list \<times> (track \<times> string)" where
  "spec_executor [] tp = ([], tp)"
| "spec_executor (pair # rest) tp =
     (let h = spec_select pair (fst tp);
          r = spec_executor rest (spec_apply h tp)
      in (h # fst r, snd r))"

text \<open>The track and payload that a result of the program stands for.\<close>

fun track_payload :: "pyres \<Rightarrow> track \<times> string" where
  "track_payload (Str v) = (OnSuccess, v)"
| "track_payload (Failure m) = (OnFailure, m)"

definition spec_start :: "FiredDeferred \<Rightarrow> string \<Rightarrow> track \<times> string" where
  "spec_start fd result =
     (if fd_method fd = ''callback'' then (OnSuccess, result) else (OnFailure, result))"

text \<open>Example inputs.\<close>

definition scr_ab :: Screen where
  "scr_ab = draw_text 1 1 ''ab'' Screen_init"

definition cb_ok :: Callback where
  "cb_ok = Callback_init Return ''ok''"

definition cb_boom :: Callback where
  "cb_boom = Callback_init Fail ''boom''"

definition cb_pass :: Callback where
  "cb_pass = Callback_init Passthru []"

definition cb_x :: Callback where
  "cb_x = Callback_init Return ''x''"

definition cb_y :: Callback where
  "cb_y = Callback_init Fail ''y''"

text \<open>The chain of scenario 3 of the specification, its widget, and its firing with a failure.\<close>

definition sc3 :: "(Callback \<times> Callback) list" where
  "sc3 = [(cb_pass, cb_pass), (cb_x, cb_y)]"

definition d_sc3 :: Deferred where
  "d_sc3 = \<lparr>pairs = sc3, callback_width = 12, width = 26, height = 13\<rparr>"

definition fd_sc3 :: FiredDeferred where
  "fd_sc3 = FiredDeferred_init d_sc3 ''errback''"

section \<open>Properties of the screen\<close>


lemma map_of_draw_char:
  "map_of (pixels (draw_char x y c s)) = (map_of (pixels s))((x, y) \<mapsto> c)"
  by (simp add: draw_char_def update_conv')

lemma finite_Screen_keys: "finite (Screen_keys s)"
  by (simp add: Screen_keys_def)

lemma Screen_width_keys: "Screen_width s = Max (insert 0 ((\<lambda>p. fst p + 1) ` Screen_keys s))"
  by (simp add: Screen_width_def Screen_keys_def image_image)

lemma Screen_height_keys: "Screen_height s = Max (insert 0 ((\<lambda>p. snd p + 1) ` Screen_keys s))"
  by (simp add: Screen_height_def Screen_keys_def image_image)

lemma Max_insert0_image:
  assumes "finite A" "A \<noteq> {}"
  shows "Max (insert (0::int) ((\<lambda>p. f p + 1) ` A)) = max 0 (Max (f ` A) + 1)"
proof -
  have "Max ((\<lambda>p. f p + 1) ` A) = Max (f ` A) + 1"
    using assms by (simp add: mono_Max_commute[where f="\<lambda>v. v + 1", unfolded mono_def, simplified] image_image)
  then show ?thesis using assms by simp
qed

lemma Screen_width_max:
  "Screen_width s = (if pixels s = [] then 0 else max 0 (Max (fst ` Screen_keys s) + 1))"
proof (cases "pixels s = []")
  case True then show ?thesis by (simp add: Screen_width_def)
next
  case False
  then have "Screen_keys s \<noteq> {}" by (simp add: Screen_keys_def)
  then show ?thesis using False
    by (simp add: Screen_width_keys Max_insert0_image[OF finite_Screen_keys])
qed

lemma Screen_height_max:
  "Screen_height s = (if pixels s = [] then 0 else max 0 (Max (snd ` Screen_keys s) + 1))"
proof (cases "pixels s = []")
  case True then show ?thesis by (simp add: Screen_height_def)
next
  case False
  then have "Screen_keys s \<noteq> {}" by (simp add: Screen_keys_def)
  then show ?thesis using False
    by (simp add: Screen_height_keys Max_insert0_image[OF finite_Screen_keys])
qed

lemma fold_snoc_map: "fold (\<lambda>x acc. acc @ [f x]) xs acc = acc @ map f xs"
  by (induction xs arbitrary: acc) simp_all

lemma fold_snoc_concat: "fold (\<lambda>y acc. acc @ g y) ys acc = acc @ concat (map g ys)"
  by (induction ys arbitrary: acc) simp_all

lemma Screen_str_concat:
  "Screen_str s = concat (map (\<lambda>y. Screen_row s y @ [CHR 0x0A]) (py_range (Screen_height s)))"
  by (simp add: Screen_str_def Let_def fold_snoc_map Screen_row_def
      fold_snoc_concat[where acc="[]", simplified])

lemma length_Screen_row: "int (length (Screen_row s y)) = Screen_width s"
  using Screen_width_keys[of s] finite_Screen_keys[of s]
  by (simp add: Screen_row_def py_range_def)

lemma nth_Screen_row:
  "int x < Screen_width s \<Longrightarrow>
     Screen_row s y ! x = (case map_of (pixels s) (int x, int y) of None \<Rightarrow> CHR '' '' | Some c \<Rightarrow> c)"
  by (simp add: Screen_row_def py_range_def pixels_get_def)

lemma scr_ab_pixels: "pixels scr_ab = [((1, 1), CHR ''a''), ((2, 1), CHR ''b'')]"
  by (simp add: scr_ab_def draw_text_def draw_char_def Screen_init_def enumerate_eq_zip upt_rec)

text \<open>
  Claim C8, as amended. The rendered text is one row for each y below the height, each
  row being one character for each x below the width followed by a newline, and nothing
  else; a cell without a pixel is a space. The width is the largest x + 1 over the set
  pixels and the height the largest y + 1, but neither is below 0: both are 0 for the empty
  canvas, and a size is also 0 when every set coordinate on its axis is negative. The
  empty canvas renders as the empty string.
\<close>

theorem Screen_str_rows:
  "Screen_str s = concat (map (\<lambda>y. Screen_row s y @ [CHR 0x0A]) [0 ..< nat (Screen_height s)])
   \<and> (\<forall>y. int (length (Screen_row s y)) = Screen_width s)
   \<and> (\<forall>x y. int x < Screen_width s \<longrightarrow>
         Screen_row s y ! x = (case map_of (pixels s) (int x, int y) of None \<Rightarrow> CHR '' '' | Some c \<Rightarrow> c))
   \<and> Screen_width s = (if pixels s = [] then 0 else max 0 (Max (fst ` Screen_keys s) + 1))
   \<and> Screen_height s = (if pixels s = [] then 0 else max 0 (Max (snd ` Screen_keys s) + 1))
   \<and> Screen_str Screen_init = []"
proof -
  have "Screen_str Screen_init = []"
    by (simp add: Screen_str_def Screen_init_def Screen_height_def py_range_def)
  then show ?thesis
    using Screen_str_concat[of s] length_Screen_row[of s] nth_Screen_row[of _ s]
      Screen_width_max[of s] Screen_height_max[of s]
    by (simp add: py_range_def)
qed

theorem Screen_str_rows_witness:
  "int 1 < Screen_width scr_ab \<and> Screen_row scr_ab 1 ! 1 = CHR ''a''
   \<and> Screen_str scr_ab = [CHR '' '', CHR '' '', CHR '' '', CHR 0x0A, CHR '' '', CHR ''a'', CHR ''b'', CHR 0x0A]"
proof -
  have w: "int 1 < Screen_width scr_ab"
    by (simp add: Screen_width_def scr_ab_pixels)
  have r: "Screen_row scr_ab 1 ! 1 = (case map_of (pixels scr_ab) (int 1, int 1) of None \<Rightarrow> CHR '' '' | Some c \<Rightarrow> c)"
    using Screen_str_rows[of scr_ab] w by blast
  have s: "Screen_str scr_ab = concat (map (\<lambda>y. Screen_row scr_ab y @ [CHR 0x0A]) [0 ..< nat (Screen_height scr_ab)])"
    using Screen_str_rows[of scr_ab] by blast
  have h: "Screen_height scr_ab = 2" "Screen_width scr_ab = 3"
    by (simp_all add: Screen_height_def Screen_width_def scr_ab_pixels)
  show ?thesis using w r s
    by (simp add: h scr_ab_pixels Screen_row_def py_range_def pixels_get_def upt_rec numeral_nat)
qed

text \<open>
  The claim as worded fails on a canvas whose only pixel is at x = -5: the largest set x
  plus 1 is -4, the width of the program is 0, and the three rows are empty.
\<close>

theorem Screen_width_counterexample:
  "Screen_width (draw_char (- 5) 2 CHR ''a'' Screen_init) = 0
   \<and> spec_width (draw_char (- 5) 2 CHR ''a'' Screen_init) = - 4
   \<and> Screen_str (draw_char (- 5) 2 CHR ''a'' Screen_init) = [CHR 0x0A, CHR 0x0A, CHR 0x0A]"
  by (simp add: Screen_width_def spec_width_def draw_char_def Screen_init_def Screen_str_def
      Screen_height_def py_range_def upt_rec numeral_nat)

lemma Screen_width_nonneg: "0 \<le> Screen_width s"
  by (simp add: Screen_width_keys finite_Screen_keys)

lemma Screen_height_nonneg: "0 \<le> Screen_height s"
  by (simp add: Screen_height_keys finite_Screen_keys)












text \<open>
  Claim C10. With height 0 and the end arrow asked for, \<^verbatim>\<open>draw_vert_line\<close> draws no
  bar (without the arrow the screen is unchanged) and writes exactly the backslash at
  (x - 1, y - 1) and the slash at (x + 1, y - 1). For every height the arrow pair is at row
  y + height - 1, drawn after the bars whatever their number.
\<close>

theorem draw_vert_line_end_arrow:
  "draw_vert_line x y 0 False s = s
   \<and> map_of (pixels (draw_vert_line x y 0 True s))
       = (map_of (pixels s))((x - 1, y - 1) \<mapsto> CHR 0x5C, (x + 1, y - 1) \<mapsto> CHR ''/'')
   \<and> map_of (pixels (draw_vert_line x y h True s)) (x - 1, y + h - 1) = Some (CHR 0x5C)
   \<and> map_of (pixels (draw_vert_line x y h True s)) (x + 1, y + h - 1) = Some CHR ''/''
   \<and> draw_vert_line x y h True s
       = draw_char (x + 1) (y + h - 1) CHR ''/''
           (draw_char (x - 1) (y + h - 1) (CHR 0x5C) (draw_vert_line x y h False s))"
  by (simp add: draw_vert_line_def Let_def map_of_draw_char py_range_def)

section \<open>Properties of the widgets\<close>

text \<open>
  Claim C4. Building the deferred widget from the empty list fails, with the
  \<^verbatim>\<open>AssertionError\<close> of \<^verbatim>\<open>assert pairs\<close> (the error that the specification calls
  InvalidChain); from a non-empty list it succeeds and keeps the pairs in their order.
\<close>

theorem Deferred_init_pairs:
  "Deferred_init [] = Inl AssertionError
   \<and> (ps \<noteq> [] \<longrightarrow> (\<exists>d. Deferred_init ps = Inr d \<and> pairs d = ps))"
  by (simp add: Deferred_init_def Let_def)

theorem Deferred_init_pairs_witness:
  "[(cb_ok, cb_pass)] \<noteq> []
   \<and> (\<exists>d. Deferred_init [(cb_ok, cb_pass)] = Inr d \<and> pairs d = [(cb_ok, cb_pass)])"
  using Deferred_init_pairs[of "[(cb_ok, cb_pass)]"] by simp

lemma style_examples:
  "style cb_ok = Return" "style cb_boom = Fail" "style cb_pass = Passthru"
  "cb_value cb_ok = ''ok''" "cb_value cb_boom = ''boom''"
  by (simp_all add: cb_ok_def cb_boom_def cb_pass_def Callback_init_def Let_def)

text \<open>
  Claim C2. Called on any result, plain or failure, a return widget returns its value as
  a plain result; a fail widget raises an exception carrying its value, which the
  Deferred wraps in a failure; a passthru widget returns its argument as it is, a plain
  value as a plain value and a failure as a failure.
\<close>

theorem Callback_call_styles:
  "(style cb = Return \<longrightarrow> Callback_call cb x = Returns (Str (cb_value cb)))
   \<and> (style cb = Fail \<longrightarrow> Callback_call cb x = Raises (cb_value cb)
        \<and> fst (runCallbacks [(\<lambda>r w. (Callback_call cb r, w), \<lambda>r w. (Callback_call cb r, w))] x w)
            = Failure (cb_value cb))
   \<and> (style cb = Passthru \<longrightarrow> Callback_call cb x = Returns x
        \<and> fst (runCallbacks [(\<lambda>r w. (Callback_call cb r, w), \<lambda>r w. (Callback_call cb r, w))] x w) = x)"
  by (simp add: Callback_call_def)

theorem Callback_call_styles_witness:
  "style cb_ok = Return \<and> Callback_call cb_ok (Failure ''e'') = Returns (Str ''ok'')
   \<and> style cb_boom = Fail \<and> Callback_call cb_boom (Str ''v'') = Raises ''boom''
   \<and> style cb_pass = Passthru \<and> Callback_call cb_pass (Failure ''e'') = Returns (Failure ''e'')
   \<and> Callback_call cb_pass (Str ''v'') = Returns (Str ''v'')"
  using Callback_call_styles[of cb_ok "Failure ''e''" "()"]
    Callback_call_styles[of cb_boom "Str ''v''" "()"]
    Callback_call_styles[of cb_pass "Failure ''e''" "()"]
    Callback_call_styles[of cb_pass "Str ''v''" "()"]
  by (simp add: style_examples)

section \<open>Properties of the run of a chain\<close>

lemma fired_draw_connection [simp]: "fired (draw_connection cw x0 x st) = fired st"
  by (simp add: draw_connection_def Let_def)

lemma last_y_draw_connection [simp]: "last_y (draw_connection cw x0 x st) = last_y st"
  by (simp add: draw_connection_def Let_def)

lemma last_x_draw_connection [simp]: "last_x (draw_connection cw x0 x st) = last_x st"
  by (simp add: draw_connection_def Let_def)

lemma fst_wrap_callback [simp]: "fst (wrap_callback cw x0 cb x res st) = Callback_call cb res"
  by (simp add: wrap_callback_def Let_def)

lemma fired_wrap_callback [simp]:
  "fired (snd (wrap_callback cw x0 cb x res st)) = fired st @ [cb]"
  by (simp add: wrap_callback_def Let_def)

lemma last_y_wrap_callback [simp]:
  "last_y (snd (wrap_callback cw x0 cb x res st)) = last_y st + 8"
  by (simp add: wrap_callback_def Let_def Callback_height_def)

lemma last_x_wrap_callback [simp]:
  "last_x (snd (wrap_callback cw x0 cb x res st)) = x"
  by (simp add: wrap_callback_def Let_def)

lemma runCallbacks_Cons:
  "runCallbacks (item # rest) res w =
     (let callback = (if isFailure res then snd item else fst item)
      in runCallbacks rest (next_res (fst (callback res w))) (snd (callback res w)))"
  by (simp add: next_res_def Let_def split: prod.split outcome.split)

lemma track_payload_call:
  "track_payload (next_res (Callback_call h res)) = spec_apply h (track_payload res)"
  by (cases "style h") (simp_all add: Callback_call_def spec_apply_def next_res_def)

lemma spec_select_track:
  "spec_select pair (fst (track_payload res)) = (if isFailure res then snd pair else fst pair)"
  by (cases res) (simp_all add: spec_select_def)

lemma runCallbacks_wrap:
  "fired (snd (runCallbacks (wrap_pairs cw x0 ps) res st))
     = fired st @ fst (spec_executor ps (track_payload res))
   \<and> track_payload (fst (runCallbacks (wrap_pairs cw x0 ps) res st))
     = snd (spec_executor ps (track_payload res))
   \<and> last_y (snd (runCallbacks (wrap_pairs cw x0 ps) res st)) = last_y st + 8 * int (length ps)"
proof (induction ps arbitrary: res st)
  case Nil
  then show ?case by (simp add: wrap_pairs_def)
next
  case (Cons pair ps)
  have unf: "wrap_pairs cw x0 (pair # ps) = (wrap_callback cw x0 (fst pair) x0,
                       wrap_callback cw x0 (snd pair) (errback_left_x cw x0)) # wrap_pairs cw x0 ps"
    by (simp add: wrap_pairs_def)
  show ?case
    unfolding unf runCallbacks_Cons
    by (simp add: Let_def Cons.IH track_payload_call spec_select_track)
qed

lemma make_drawing_deferred_wrap:
  "make_drawing_deferred self x y =
     (draw_start (callback_width (deferred self)) x y, draw_start (callback_width (deferred self)) x y)
       # wrap_pairs (callback_width (deferred self)) x (pairs (deferred self))"
  by (simp add: make_drawing_deferred_def wrap_pairs_def Let_def)

lemma draw_start_facts [simp]:
  "fst (draw_start cw x0 y0 res st) = Returns res"
  "fired (snd (draw_start cw x0 y0 res st)) = fired st"
  "last_y (snd (draw_start cw x0 y0 res st)) = y0 + 4"
  "last_x (snd (draw_start cw x0 y0 res st)) = (if isFailure res then errback_left_x cw x0 else x0)"
  by (simp_all add: draw_start_def Let_def)

lemma draw_end_facts [simp]:
  "fired (draw_end cw x0 res st) = fired st"
  "last_y (draw_end cw x0 res st) = last_y st"
  by (simp_all add: draw_end_def Let_def)

lemma fire_chain_start:
  "fire_chain fd scr x y result =
     runCallbacks (make_drawing_deferred fd x y)
       (if fd_method fd = ''callback'' then Str result else Failure result)
       \<lparr>screen = scr, last_x = 0, last_y = 0, fired = []\<rparr>"
  by (simp add: fire_chain_def Let_def)

lemma track_payload_start:
  "track_payload (if fd_method fd = ''callback'' then Str result else Failure result) = spec_start fd result"
  by (simp add: spec_start_def)

lemma fire_chain_spec:
  "fired (snd (fire_chain fd scr x y result))
     = fst (spec_executor (pairs (deferred fd)) (spec_start fd result))
   \<and> track_payload (fst (fire_chain fd scr x y result))
     = snd (spec_executor (pairs (deferred fd)) (spec_start fd result))
   \<and> last_y (snd (fire_chain fd scr x y result)) = y + 4 + 8 * int (length (pairs (deferred fd)))"
  unfolding fire_chain_start make_drawing_deferred_wrap runCallbacks_Cons
  by (simp add: Let_def runCallbacks_wrap next_res_def track_payload_start del: One_nat_def)

lemma stage_fires:
  "fired (snd (runCallbacks [(wrap_callback cw x0 cb x0, wrap_callback cw x0 eb (errback_left_x cw x0))] res st))
     = fired st @ [if isFailure res then eb else cb]
   \<and> fst (runCallbacks [(wrap_callback cw x0 cb x0, wrap_callback cw x0 eb (errback_left_x cw x0))] res st)
     = (case style (if isFailure res then eb else cb) of
          Return \<Rightarrow> Str (cb_value (if isFailure res then eb else cb))
        | Fail \<Rightarrow> Failure (cb_value (if isFailure res then eb else cb))
        | Passthru \<Rightarrow> res)"
  unfolding runCallbacks_Cons
  by (cases "style cb"; cases "style eb") (simp_all add: Let_def next_res_def Callback_call_def)

lemma Deferred_init_sc3: "Deferred_init sc3 = Inr d_sc3"
  by (simp add: Deferred_init_def sc3_def d_sc3_def cb_pass_def cb_x_def cb_y_def Callback_init_def
      Callback_repr_def style_str_def Callback_height_def Let_def)

lemma sc3_executor:
  "spec_executor sc3 (OnFailure, ''e0'') = ([cb_pass, cb_y], (OnFailure, ''y''))"
  by (simp add: sc3_def spec_select_def spec_apply_def Let_def cb_pass_def cb_y_def Callback_init_def)

lemma Screen_map_draw_char:
  "Screen_map (draw_char x y c s) = (Screen_map s)((x, y) \<mapsto> c)"
  by (simp add: Screen_map_def map_of_draw_char)

lemma Screen_keys_dom: "Screen_keys s = dom (Screen_map s)"
  by (simp add: Screen_keys_def Screen_map_def dom_map_of_conv_image_fst)

lemma Screen_map_init: "Screen_map Screen_init = Map.empty"
  by (simp add: Screen_map_def Screen_init_def)

lemma upds_Nil [simp]: "upds fk fc [] m = m"
  by (simp add: upds_def)

lemma upds_Cons [simp]: "upds fk fc (e # es) m = upds fk fc es (m(fk e \<mapsto> fc e))"
  by (simp add: upds_def)

lemma upds_snoc: "upds fk fc (es @ [e]) m = (upds fk fc es m)(fk e \<mapsto> fc e)"
  by (simp add: upds_def)

lemma Screen_map_fold:
  "Screen_map (fold (\<lambda>e. draw_char (fst (fk e)) (snd (fk e)) (fc e)) es s)
     = upds fk fc es (Screen_map s)"
  by (induction es arbitrary: s) (simp_all add: Screen_map_draw_char)

lemma upds_add: "upds fk fc es (b ++ m) = b ++ upds fk fc es m"
  by (induction es arbitrary: m) (simp_all flip: map_add_upd)

lemma dom_upds: "dom (upds fk fc es m) = dom m \<union> fk ` set es"
  by (induction es arbitrary: m) auto

lemma upds_other: "k \<notin> fk ` set es \<Longrightarrow> upds fk fc es m k = m k"
  by (induction es arbitrary: m) auto

lemma Screen_map_horiz:
  "Screen_map (draw_horiz_line x y w s)
     = upds (\<lambda>i. (x + int i, y)) (\<lambda>i. CHR ''-'') (py_range w) (Screen_map s)"
  using Screen_map_fold[of "\<lambda>i. (x + int i, y)" "\<lambda>i. CHR ''-''" "py_range w" s]
  by (simp add: draw_horiz_line_def)

lemma Screen_map_vert:
  "Screen_map (draw_vert_line x y h a s)
     = (let m = upds (\<lambda>i. (x, y + int i)) (\<lambda>i. CHR ''|'') (py_range h) (Screen_map s)
        in if a then m((x - 1, y + h - 1) \<mapsto> CHR 0x5C, (x + 1, y + h - 1) \<mapsto> CHR ''/'') else m)"
  using Screen_map_fold[of "\<lambda>i. (x, y + int i)" "\<lambda>i. CHR ''|''" "py_range h" s]
  by (simp add: draw_vert_line_def Let_def Screen_map_draw_char)

lemma Screen_map_text:
  "Screen_map (draw_text x y t s)
     = upds (\<lambda>e. (x + int (fst e), y)) snd (enumerate 0 t) (Screen_map s)"
  using Screen_map_fold[of "\<lambda>e. (x + int (fst e), y)" snd "enumerate 0 t" s]
  by (simp add: draw_text_def case_prod_unfold)

lemma Screen_rel_horiz:
  "Screen_rel b s s' \<Longrightarrow> Screen_rel b (draw_horiz_line x y w s) (draw_horiz_line x y w s')"
  by (simp add: Screen_rel_def Screen_map_horiz upds_add)

lemma Screen_rel_vert:
  "Screen_rel b s s' \<Longrightarrow> Screen_rel b (draw_vert_line x y h a s) (draw_vert_line x y h a s')"
  by (simp add: Screen_rel_def Screen_map_vert upds_add Let_def)

lemma Screen_rel_text:
  "Screen_rel b s s' \<Longrightarrow> Screen_rel b (draw_text x y t s) (draw_text x y t s')"
  by (simp add: Screen_rel_def Screen_map_text upds_add)

lemma set_py_range: "set (py_range n) = {i. int i < n}"
  by (auto simp: py_range_def)

lemma Screen_keys_horiz:
  "Screen_keys (draw_horiz_line x y w s) \<subseteq> Screen_keys s \<union> cols x (x + w - 1)"
  by (auto simp: Screen_keys_dom Screen_map_horiz dom_upds cols_def set_py_range)

lemma Screen_keys_vert:
  "Screen_keys (draw_vert_line x y h a s) \<subseteq> Screen_keys s \<union> cols (x - 1) (x + 1)"
  by (auto simp: Screen_keys_dom Screen_map_vert dom_upds cols_def Let_def)

lemma Screen_keys_vert_plain:
  "Screen_keys (draw_vert_line x y h False s) \<subseteq> Screen_keys s \<union> cols x x"
  by (auto simp: Screen_keys_dom Screen_map_vert dom_upds cols_def Let_def)

lemma Screen_keys_text:
  "Screen_keys (draw_text x y t s) \<subseteq> Screen_keys s \<union> cols x (x + int (length t) - 1)"
  by (auto simp: Screen_keys_dom Screen_map_text dom_upds cols_def in_set_enumerate_eq)

lemma Screen_map_horiz_other:
  assumes "snd k \<noteq> y"
  shows "Screen_map (draw_horiz_line x y w s) k = Screen_map s k"
proof -
  have "k \<notin> (\<lambda>i. (x + int i, y)) ` set (py_range w)" using assms by auto
  then show ?thesis by (simp add: Screen_map_horiz upds_other)
qed

lemma Screen_map_vert_other:
  assumes "0 < h" "snd k < y \<or> y + h \<le> snd k"
  shows "Screen_map (draw_vert_line x y h a s) k = Screen_map s k"
proof -
  have "k \<notin> (\<lambda>i. (x, y + int i)) ` set (py_range h)"
    using assms by (auto simp: set_py_range)
  moreover have "k \<noteq> (x - 1, y + h - 1)" "k \<noteq> (x + 1, y + h - 1)"
    using assms by auto
  ultimately show ?thesis by (simp add: Screen_map_vert upds_other Let_def)
qed

lemma draw_text_snoc:
  "draw_text x y (t @ [c]) s = draw_char (x + int (length t)) y c (draw_text x y t s)"
  by (simp add: draw_text_def enumerate_append_eq)

lemma Screen_map_text_nth:
  "i < length t \<Longrightarrow> Screen_map (draw_text x y t s) (x + int i, y) = Some (t ! i)"
proof (induction t arbitrary: i rule: rev_induct)
  case Nil
  then show ?case by simp
next
  case (snoc c t)
  then show ?case
    by (cases "i = length t") (simp_all add: draw_text_snoc Screen_map_draw_char nth_append)
qed

lemma screen_draw_connection_row:
  "Screen_map (screen (draw_connection cw x0 x st)) (kx, last_y st) = Screen_map (screen st) (kx, last_y st)"
  by (simp add: draw_connection_def Let_def Screen_map_vert_other Screen_map_horiz_other)

lemma draw_end_Failure_row:
  assumes "i < length (py_center (''Exception('' @ m @ '')'') (cw + 20))"
  shows "Screen_map (screen (draw_end cw x0 (Failure m) st)) (errback_left_x cw x0 - 10 + int i, last_y st)
           = Some (py_center (''Exception('' @ m @ '')'') (cw + 20) ! i)"
proof -
  let ?st1 = "st\<lparr>screen := draw_value cw x0 (Failure m) (last_y st) (screen st)\<rparr>"
  have "draw_end cw x0 (Failure m) st = draw_connection cw x0 (errback_left_x cw x0) ?st1"
    by (simp add: draw_end_def Let_def)
  moreover have "last_y ?st1 = last_y st" by simp
  ultimately have "Screen_map (screen (draw_end cw x0 (Failure m) st)) (errback_left_x cw x0 - 10 + int i, last_y st)
      = Screen_map (screen ?st1) (errback_left_x cw x0 - 10 + int i, last_y st)"
    using screen_draw_connection_row[of cw x0 "errback_left_x cw x0" ?st1] by simp
  then show ?thesis using assms
    by (simp add: draw_value_def Screen_map_text_nth)
qed

lemma track_payload_Failure: "track_payload r = (OnFailure, m) \<Longrightarrow> r = Failure m"
  by (cases r) simp_all

lemma fd_sc3_simps:
  "deferred fd_sc3 = d_sc3" "fd_method fd_sc3 = ''errback''" "pairs d_sc3 = sc3" "callback_width d_sc3 = 12"
  by (simp_all add: fd_sc3_def FiredDeferred_init_def d_sc3_def)

lemma sc3_fire_chain:
  "fst (fire_chain fd_sc3 scr x y ''e0'') = Failure ''y''"
  "fired (snd (fire_chain fd_sc3 scr x y ''e0'')) = [cb_pass, cb_y]"
  "last_y (snd (fire_chain fd_sc3 scr x y ''e0'')) = y + 20"
  using fire_chain_spec[of fd_sc3 scr x y "''e0''"]
  by (simp_all add: fd_sc3_simps spec_start_def sc3_executor track_payload_Failure, simp add: sc3_def)

lemma center_exception_y:
  "py_center ''Exception(y)'' 32 = ''          Exception(y)          ''"
  by (simp add: py_center_def Let_def numeral_eq_Suc)

lemma sc3_final_row:
  assumes "i < 32"
  shows "Screen_map (FiredDeferred_draw fd_sc3 Screen_init 0 0 ''e0'') (4 + int i, 20)
       = Some (''          Exception(y)          '' ! i)"
proof -
  obtain st where st: "fire_chain fd_sc3 Screen_init 0 0 ''e0'' = (Failure ''y'', st)" "last_y st = 20"
    using sc3_fire_chain(1,3)[of Screen_init 0 0] by (cases "fire_chain fd_sc3 Screen_init 0 0 ''e0''") auto
  have "FiredDeferred_draw fd_sc3 Screen_init 0 0 ''e0'' = screen (draw_end 12 0 (Failure ''y'') st)"
    by (simp add: FiredDeferred_draw_def fire_def st fd_sc3_simps)
  then show ?thesis
    using draw_end_Failure_row[of i "''y''" 12 0 st] assms st(2)
    by (simp add: center_exception_y errback_left_x_def)
qed

lemma map_upt_nth:
  assumes "\<And>i. i < length t \<Longrightarrow> f i = g (t ! i)"
  shows "map f [0 ..< length t] = map g t"
  by (rule nth_equalityI) (simp_all add: assms)

lemma sc3_final_text:
  "map (\<lambda>i. Screen_map (FiredDeferred_draw fd_sc3 Screen_init 0 0 ''e0'') (4 + int i, 20)) [0 ..< 32]
     = map Some ''          Exception(y)          ''"
proof -
  have l: "length ''          Exception(y)          '' = 32" by simp
  show ?thesis
    using map_upt_nth[of "''          Exception(y)          ''"
        "\<lambda>i. Screen_map (FiredDeferred_draw fd_sc3 Screen_init 0 0 ''e0'') (4 + int i, 20)" Some]
      sc3_final_row
    unfolding l by blast
qed

lemma spec_executor_all2:
  "list_all2 (\<lambda>h p. h = fst p \<or> h = snd p) (fst (spec_executor ps tp)) ps"
  by (induction ps arbitrary: tp) (auto simp: Let_def spec_select_def split: track.split)

lemma fire_fired: "fired (fire fd scr x y result) = fired (snd (fire_chain fd scr x y result))"
  by (simp add: fire_def split: prod.split)

lemma fire_last_y: "last_y (fire fd scr x y result) = last_y (snd (fire_chain fd scr x y result))"
  by (simp add: fire_def split: prod.split)

lemma Deferred_init_pairs_eq: "Deferred_init ps = Inr d \<Longrightarrow> pairs d = ps"
  by (auto simp: Deferred_init_def Let_def split: if_splits)

text \<open>
  Claim C1. In every run the widgets called, in order, and the result that reaches
  \<^verbatim>\<open>draw_end\<close> are those of the executor of the specification. At every stage the widget
  called is the errback when the current result is a failure and the callback
  otherwise; after it the result is the plain value of a return widget, the failure of a
  fail widget, and the unchanged result, plain or failure, behind a passthru widget.
  In scenario 3, fired with the failure e0, the first pair calls its passthru errback
  and keeps the failure e0, the second pair calls its errback fail y and gives the failure
  y, and the text drawn for the final value, on row 20 from column 4, is Exception(y)
  centred in 32 columns.
\<close>

theorem fire_chain_follows_tracks:
  "fired (snd (fire_chain fd scr x y result))
     = fst (spec_executor (pairs (deferred fd)) (spec_start fd result))
   \<and> track_payload (fst (fire_chain fd scr x y result))
     = snd (spec_executor (pairs (deferred fd)) (spec_start fd result))
   \<and> fired (snd (runCallbacks [(wrap_callback cw x0 cb x0, wrap_callback cw x0 eb (errback_left_x cw x0))] res st))
     = fired st @ [if isFailure res then eb else cb]
   \<and> fst (runCallbacks [(wrap_callback cw x0 cb x0, wrap_callback cw x0 eb (errback_left_x cw x0))] res st)
     = (case style (if isFailure res then eb else cb) of
          Return \<Rightarrow> Str (cb_value (if isFailure res then eb else cb))
        | Fail \<Rightarrow> Failure (cb_value (if isFailure res then eb else cb))
        | Passthru \<Rightarrow> res)
   \<and> fst (runCallbacks [(wrap_callback cw x0 cb_pass x0, wrap_callback cw x0 cb_pass (errback_left_x cw x0))]
            (Failure ''e0'') st) = Failure ''e0''
   \<and> fst (runCallbacks [(wrap_callback cw x0 cb_x x0, wrap_callback cw x0 cb_y (errback_left_x cw x0))]
            (Failure ''e0'') st) = Failure ''y''
   \<and> fired (snd (fire_chain fd_sc3 Screen_init 0 0 ''e0'')) = [cb_pass, cb_y]
   \<and> fst (fire_chain fd_sc3 Screen_init 0 0 ''e0'') = Failure ''y''
   \<and> map (\<lambda>i. Screen_map (FiredDeferred_draw fd_sc3 Screen_init 0 0 ''e0'') (4 + int i, 20)) [0 ..< 32]
       = map Some ''          Exception(y)          ''"
proof -
  have s1: "fst (runCallbacks [(wrap_callback cw x0 cb_pass x0, wrap_callback cw x0 cb_pass (errback_left_x cw x0))]
            (Failure ''e0'') st) = Failure ''e0''"
    using stage_fires[of cw x0 cb_pass cb_pass "Failure ''e0''" st] by (simp add: style_examples)
  have s2: "fst (runCallbacks [(wrap_callback cw x0 cb_x x0, wrap_callback cw x0 cb_y (errback_left_x cw x0))]
            (Failure ''e0'') st) = Failure ''y''"
    using stage_fires[of cw x0 cb_x cb_y "Failure ''e0''" st]
    by (simp add: cb_y_def Callback_init_def Let_def)
  show ?thesis
    using fire_chain_spec[of fd scr x y result] stage_fires[of cw x0 cb eb res st] s1 s2
      sc3_fire_chain(1,2)[of Screen_init 0 0] sc3_final_text
    by blast
qed

lemma length_called [simp]: "length (called ps r) = length ps"
  by (induction ps arbitrary: r) (simp_all add: Let_def)

lemma called_nth:
  "i < length ps \<Longrightarrow>
     called ps r ! i
       = (if isFailure (fold (\<lambda>h r. next_res (Callback_call h r)) (take i (called ps r)) r)
          then snd (ps ! i) else fst (ps ! i))"
proof (induction ps arbitrary: r i)
  case Nil
  then show ?case by simp
next
  case (Cons p ps)
  show ?case
  proof (cases i)
    case 0
    then show ?thesis by (simp add: Let_def)
  next
    case (Suc n)
    then have "n < length ps" using Cons.prems by simp
    from Cons.IH[OF this] show ?thesis using Suc by (simp add: Let_def)
  qed
qed

lemma runCallbacks_called:
  "fired (snd (runCallbacks (wrap_pairs cw x0 ps) res st)) = fired st @ called ps res
   \<and> fst (runCallbacks (wrap_pairs cw x0 ps) res st)
       = fold (\<lambda>h r. next_res (Callback_call h r)) (called ps res) res"
proof (induction ps arbitrary: res st)
  case Nil
  then show ?case by (simp add: wrap_pairs_def)
next
  case (Cons pair ps)
  have unf: "wrap_pairs cw x0 (pair # ps) = (wrap_callback cw x0 (fst pair) x0,
                       wrap_callback cw x0 (snd pair) (errback_left_x cw x0)) # wrap_pairs cw x0 ps"
    by (simp add: wrap_pairs_def)
  show ?case
    unfolding unf runCallbacks_Cons
    by (simp add: Let_def Cons.IH)
qed

lemma fire_chain_called:
  "fired (snd (fire_chain fd scr x y result))
     = called (pairs (deferred fd)) (if fd_method fd = ''callback'' then Str result else Failure result)
   \<and> fst (fire_chain fd scr x y result)
       = fold (\<lambda>h r. next_res (Callback_call h r))
           (called (pairs (deferred fd)) (if fd_method fd = ''callback'' then Str result else Failure result))
           (if fd_method fd = ''callback'' then Str result else Failure result)"
  unfolding fire_chain_start make_drawing_deferred_wrap runCallbacks_Cons
  by (simp add: Let_def runCallbacks_called next_res_def del: One_nat_def)

lemma upds_at:
  assumes "k \<in> fk ` set es" "\<forall>e\<in>set es. fk e = k \<longrightarrow> fc e = c"
  shows "upds fk fc es m k = Some c"
  using assms
proof (induction es arbitrary: m rule: rev_induct)
  case Nil
  then show ?case by simp
next
  case (snoc e es)
  show ?case
  proof (cases "fk e = k")
    case True
    then show ?thesis using snoc.prems by (simp add: upds_snoc)
  next
    case False
    then have "k \<in> fk ` set es" using snoc.prems(1) by auto
    moreover have "\<forall>e\<in>set es. fk e = k \<longrightarrow> fc e = c" using snoc.prems(2) by simp
    ultimately show ?thesis using snoc.IH False by (simp add: upds_snoc)
  qed
qed

lemma Screen_map_horiz_at:
  assumes "j < nat w"
  shows "Screen_map (draw_horiz_line x y w s) (x + int j, y) = Some CHR ''-''"
proof -
  have "(x + int j, y) \<in> (\<lambda>i. (x + int i, y)) ` set (py_range w)"
    using assms by (auto simp: py_range_def)
  then show ?thesis by (simp add: Screen_map_horiz upds_at)
qed

lemma Screen_map_text_other:
  assumes "snd k \<noteq> y"
  shows "Screen_map (draw_text x y t s) k = Screen_map s k"
proof -
  have "k \<notin> (\<lambda>e. (x + int (fst e), y)) ` set (enumerate 0 t)" using assms by auto
  then show ?thesis by (simp add: Screen_map_text upds_other)
qed

lemma Callback_draw_top:
  "j < nat w \<Longrightarrow> Screen_map (Callback_draw cb s x y w) (x + int j, y) = Some CHR ''-''"
  by (simp add: Callback_draw_def Let_def Screen_map_text_other Screen_map_vert_other
      Screen_map_horiz_other Screen_map_horiz_at)

lemma Callback_draw_below:
  "snd k < y \<Longrightarrow> Screen_map (Callback_draw cb s x y w) k = Screen_map s k"
  by (simp add: Callback_draw_def Let_def Screen_map_text_other Screen_map_vert_other
      Screen_map_horiz_other)

lemma draw_connection_below:
  "snd k < last_y st - 3 \<Longrightarrow>
     Screen_map (screen (draw_connection cw x0 x st)) k = Screen_map (screen st) k"
  by (simp add: draw_connection_def Let_def Screen_map_vert_other Screen_map_horiz_other)

lemma wrap_callback_top:
  assumes "j < nat cw"
  shows "Screen_map (screen (snd (wrap_callback cw x0 cb x res st))) (x + int j, last_y st) = Some CHR ''-''"
proof -
  let ?st1 = "st\<lparr>screen := Callback_draw cb (screen st) x (last_y st) cw\<rparr>"
  have "screen (snd (wrap_callback cw x0 cb x res st)) = screen (draw_connection cw x0 x ?st1)"
    by (simp add: wrap_callback_def Let_def)
  moreover have "Screen_map (screen (draw_connection cw x0 x ?st1)) (x + int j, last_y ?st1)
                  = Screen_map (screen ?st1) (x + int j, last_y ?st1)"
    by (rule screen_draw_connection_row)
  ultimately show ?thesis using assms by (simp add: Callback_draw_top)
qed

lemma wrap_callback_below:
  assumes "snd k < last_y st - 3"
  shows "Screen_map (screen (snd (wrap_callback cw x0 cb x res st))) k = Screen_map (screen st) k"
proof -
  let ?st1 = "st\<lparr>screen := Callback_draw cb (screen st) x (last_y st) cw\<rparr>"
  have "screen (snd (wrap_callback cw x0 cb x res st)) = screen (draw_connection cw x0 x ?st1)"
    by (simp add: wrap_callback_def Let_def)
  moreover have "Screen_map (screen (draw_connection cw x0 x ?st1)) k = Screen_map (screen ?st1) k"
    using assms by (intro draw_connection_below) simp
  ultimately show ?thesis using assms by (simp add: Callback_draw_below)
qed

lemma wrap_pairs_below:
  "snd k < last_y st - 3 \<Longrightarrow>
     Screen_map (screen (snd (runCallbacks (wrap_pairs cw x0 ps) res st))) k = Screen_map (screen st) k"
proof (induction ps arbitrary: res st)
  case Nil
  then show ?case by (simp add: wrap_pairs_def)
next
  case (Cons pair ps)
  let ?cb = "if isFailure res then snd pair else fst pair"
  let ?x = "if isFailure res then errback_left_x cw x0 else x0"
  let ?st' = "snd (wrap_callback cw x0 ?cb ?x res st)"
  let ?res' = "next_res (Callback_call ?cb res)"
  have unf: "wrap_pairs cw x0 (pair # ps) = (wrap_callback cw x0 (fst pair) x0,
                       wrap_callback cw x0 (snd pair) (errback_left_x cw x0)) # wrap_pairs cw x0 ps"
    by (simp add: wrap_pairs_def)
  have step: "runCallbacks (wrap_pairs cw x0 (pair # ps)) res st
                = runCallbacks (wrap_pairs cw x0 ps) ?res' ?st'"
    unfolding unf runCallbacks_Cons by (simp add: Let_def)
  have "snd k < last_y ?st' - 3" using Cons.prems by simp
  from Cons.IH[OF this, of ?res'] show ?case
    unfolding step using wrap_callback_below[OF Cons.prems, of cw x0 ?cb ?x res] by simp
qed

lemma wrap_pairs_top:
  assumes "i < length ps" "j < nat cw"
  shows "Screen_map (screen (snd (runCallbacks (wrap_pairs cw x0 ps) res st)))
           ((if isFailure (fold (\<lambda>h r. next_res (Callback_call h r)) (take i (called ps res)) res)
             then errback_left_x cw x0 else x0) + int j,
            last_y st + 8 * int i)
         = Some CHR ''-''"
  using assms(1)
proof (induction ps arbitrary: res st i)
  case Nil
  then show ?case by simp
next
  case (Cons pair ps)
  let ?cb = "if isFailure res then snd pair else fst pair"
  let ?x = "if isFailure res then errback_left_x cw x0 else x0"
  let ?st' = "snd (wrap_callback cw x0 ?cb ?x res st)"
  let ?res' = "next_res (Callback_call ?cb res)"
  have unf: "wrap_pairs cw x0 (pair # ps) = (wrap_callback cw x0 (fst pair) x0,
                       wrap_callback cw x0 (snd pair) (errback_left_x cw x0)) # wrap_pairs cw x0 ps"
    by (simp add: wrap_pairs_def)
  have step: "runCallbacks (wrap_pairs cw x0 (pair # ps)) res st
                = runCallbacks (wrap_pairs cw x0 ps) ?res' ?st'"
    unfolding unf runCallbacks_Cons by (simp add: Let_def)
  show ?case
  proof (cases i)
    case 0
    have "Screen_map (screen (snd (runCallbacks (wrap_pairs cw x0 ps) ?res' ?st'))) (?x + int j, last_y st)
            = Screen_map (screen ?st') (?x + int j, last_y st)"
      by (rule wrap_pairs_below) simp
    then show ?thesis
      unfolding step using 0 wrap_callback_top[OF assms(2), of x0 ?cb ?x res st] by simp
  next
    case (Suc n)
    then have "n < length ps" using Cons.prems by simp
    from Cons.IH[OF this, of ?res' ?st'] show ?thesis
      unfolding step using Suc by (simp add: Let_def algebra_simps)
  qed
qed

lemma draw_value_other:
  "snd k \<noteq> y \<Longrightarrow> Screen_map (draw_value cw x0 res y s) k = Screen_map s k"
  by (cases res) (simp_all add: draw_value_def Screen_map_text_other)

lemma draw_end_below:
  assumes "snd k < last_y st - 3"
  shows "Screen_map (screen (draw_end cw x0 res st)) k = Screen_map (screen st) k"
proof -
  let ?st1 = "st\<lparr>screen := draw_value cw x0 res (last_y st) (screen st)\<rparr>"
  have 1: "Screen_map (screen ?st1) k = Screen_map (screen st) k"
    using assms by (simp add: draw_value_other)
  have 2: "Screen_map (screen (draw_connection cw x0 x ?st1)) k = Screen_map (screen ?st1) k" for x
    using assms by (intro draw_connection_below) simp
  show ?thesis using 1 2 by (simp add: draw_end_def Let_def)
qed

lemma fire_top:
  assumes "i < length (pairs (deferred fd))" "j < nat (callback_width (deferred fd))"
  shows "Screen_map (FiredDeferred_draw fd scr x y result)
           ((if isFailure (fold (\<lambda>h r. next_res (Callback_call h r))
                            (take i (fired (fire fd scr x y result)))
                            (if fd_method fd = ''callback'' then Str result else Failure result))
             then errback_left_x (callback_width (deferred fd)) x else x) + int j,
            y + 4 + 8 * int i)
         = Some CHR ''-''"
proof -
  let ?cw = "callback_width (deferred fd)"
  let ?ps = "pairs (deferred fd)"
  let ?r = "if fd_method fd = ''callback'' then Str result else Failure result"
  let ?st0 = "\<lparr>screen = scr, last_x = 0, last_y = 0, fired = []\<rparr>"
  let ?st1 = "snd (draw_start ?cw x y ?r ?st0)"
  let ?run = "runCallbacks (wrap_pairs ?cw x ?ps) ?r ?st1"
  let ?k = "((if isFailure (fold (\<lambda>h r. next_res (Callback_call h r)) (take i (called ?ps ?r)) ?r)
             then errback_left_x ?cw x else x) + int j, y + 4 + 8 * int i)"
  have fc: "fire_chain fd scr x y result = ?run"
    unfolding fire_chain_start make_drawing_deferred_wrap runCallbacks_Cons
    by (simp add: Let_def next_res_def)
  have f: "fired (fire fd scr x y result) = called ?ps ?r"
    using fire_chain_called[of fd scr x y result] by (simp add: fire_fired)
  have ly: "last_y (snd ?run) = y + 4 + 8 * int (length ?ps)"
    using fire_chain_spec[of fd scr x y result] by (simp add: fc)
  have top: "Screen_map (screen (snd ?run)) ?k = Some CHR ''-''"
    using wrap_pairs_top[OF assms, of x ?r ?st1] by simp
  have "snd ?k < last_y (snd ?run) - 3" using assms(1) by (simp add: ly)
  then have "Screen_map (screen (draw_end ?cw x (fst ?run) (snd ?run))) ?k
               = Screen_map (screen (snd ?run)) ?k"
    by (rule draw_end_below)
  moreover have "FiredDeferred_draw fd scr x y result = screen (draw_end ?cw x (fst ?run) (snd ?run))"
    by (simp add: FiredDeferred_draw_def fire_def fc case_prod_beta)
  ultimately show ?thesis using top by (simp add: f)
qed

lemma called_examples:
  "next_res (Callback_call cb_pass r) = r"
  "next_res (Callback_call cb_x r) = Str ''x''"
  "next_res (Callback_call cb_y r) = Failure ''y''"
  by (simp_all add: next_res_def Callback_call_def cb_pass_def cb_x_def cb_y_def Callback_init_def Let_def)

lemma two_elements: "length xs = 2 \<Longrightarrow> xs = [xs ! 0, xs ! 1]"
  by (cases xs; cases "tl xs") auto

text \<open>
  Claim C3. For every chain that the deferred widget accepts, that is every non-empty
  chain, and either way of firing it, the run calls exactly one widget for each pair, in
  the order of the chain. The widgets called are as many as the pairs; the i-th of them
  is the errback of the i-th pair when the result of calling the widgets before it, in
  order, from the starting result is a failure, and the callback of that pair otherwise;
  the result that leaves the chain is the result of calling all of them in order. Each
  call shows on the canvas: the top edge of the box of the i-th widget called is drawn in
  the column of that widget at row y + 4 + 8 * i. The drawing position has then moved down
  by 8 rows for each pair, whatever the tracks taken.
\<close>

theorem fire_one_handler_per_pair:
  "Deferred_init ps = Inr d \<longrightarrow>
     length (fired (fire (FiredDeferred_init d m) scr x y result)) = length ps
     \<and> list_all2 (\<lambda>h p. h = fst p \<or> h = snd p) (fired (fire (FiredDeferred_init d m) scr x y result)) ps
     \<and> last_y (fire (FiredDeferred_init d m) scr x y result) = y + 4 + 8 * int (length ps)
     \<and> (\<forall>i<length ps.
           fired (fire (FiredDeferred_init d m) scr x y result) ! i
             = (if isFailure (fold (\<lambda>h r. next_res (Callback_call h r))
                                (take i (fired (fire (FiredDeferred_init d m) scr x y result)))
                                (if m = ''callback'' then Str result else Failure result))
                then snd (ps ! i) else fst (ps ! i)))
     \<and> fst (fire_chain (FiredDeferred_init d m) scr x y result)
         = fold (\<lambda>h r. next_res (Callback_call h r))
             (fired (fire (FiredDeferred_init d m) scr x y result))
             (if m = ''callback'' then Str result else Failure result)
     \<and> (\<forall>i<length ps. \<forall>j<nat (callback_width d).
           Screen_map (FiredDeferred_draw (FiredDeferred_init d m) scr x y result)
             ((if isFailure (fold (\<lambda>h r. next_res (Callback_call h r))
                              (take i (fired (fire (FiredDeferred_init d m) scr x y result)))
                              (if m = ''callback'' then Str result else Failure result))
               then errback_left_x (callback_width d) x else x) + int j,
              y + 4 + 8 * int i)
           = Some CHR ''-'')"
proof
  assume a: "Deferred_init ps = Inr d"
  let ?fd = "FiredDeferred_init d m"
  let ?hs = "fired (fire ?fd scr x y result)"
  let ?r = "if m = ''callback'' then Str result else Failure result"
  let ?call = "\<lambda>h r. next_res (Callback_call h r)"
  have p: "pairs (deferred ?fd) = ps" "callback_width (deferred ?fd) = callback_width d"
    "fd_method ?fd = m"
    using Deferred_init_pairs_eq[OF a] by (simp_all add: FiredDeferred_init_def)
  have f: "?hs = fst (spec_executor ps (spec_start ?fd result))"
    using fire_chain_spec[of ?fd scr x y result] by (simp add: fire_fired p)
  have c: "?hs = called ps ?r"
    using fire_chain_called[of ?fd scr x y result] by (simp add: fire_fired p)
  have 1: "length ?hs = length ps" by (simp add: c)
  have 2: "list_all2 (\<lambda>h p. h = fst p \<or> h = snd p) ?hs ps"
    unfolding f by (rule spec_executor_all2)
  have 3: "last_y (fire ?fd scr x y result) = y + 4 + 8 * int (length ps)"
    using fire_chain_spec[of ?fd scr x y result] by (simp add: fire_last_y p)
  have 4: "\<forall>i<length ps. ?hs ! i = (if isFailure (fold ?call (take i ?hs) ?r) then snd (ps ! i) else fst (ps ! i))"
    unfolding c using called_nth[of _ ps ?r] by blast
  have 5: "fst (fire_chain ?fd scr x y result) = fold ?call ?hs ?r"
    unfolding c using fire_chain_called[of ?fd scr x y result] by (simp add: p)
  have 6: "\<forall>i<length ps. \<forall>j<nat (callback_width d).
           Screen_map (FiredDeferred_draw ?fd scr x y result)
             ((if isFailure (fold ?call (take i ?hs) ?r)
               then errback_left_x (callback_width d) x else x) + int j, y + 4 + 8 * int i)
           = Some CHR ''-''"
  proof (intro allI impI)
    fix i j assume "i < length ps" "j < nat (callback_width d)"
    then show "Screen_map (FiredDeferred_draw ?fd scr x y result)
             ((if isFailure (fold ?call (take i ?hs) ?r)
               then errback_left_x (callback_width d) x else x) + int j, y + 4 + 8 * int i)
           = Some CHR ''-''"
      using fire_top[of i ?fd j scr x y result, unfolded p] by blast
  qed
  from 1 2 3 4 5 6 show "length ?hs = length ps
     \<and> list_all2 (\<lambda>h p. h = fst p \<or> h = snd p) ?hs ps
     \<and> last_y (fire ?fd scr x y result) = y + 4 + 8 * int (length ps)
     \<and> (\<forall>i<length ps. ?hs ! i = (if isFailure (fold ?call (take i ?hs) ?r) then snd (ps ! i) else fst (ps ! i)))
     \<and> fst (fire_chain ?fd scr x y result) = fold ?call ?hs ?r
     \<and> (\<forall>i<length ps. \<forall>j<nat (callback_width d).
           Screen_map (FiredDeferred_draw ?fd scr x y result)
             ((if isFailure (fold ?call (take i ?hs) ?r)
               then errback_left_x (callback_width d) x else x) + int j, y + 4 + 8 * int i)
           = Some CHR ''-'')"
    by blast
qed

theorem fire_one_handler_per_pair_witness:
  "Deferred_init sc3 = Inr d_sc3
   \<and> fired (fire (FiredDeferred_init d_sc3 ''callback'') Screen_init 0 0 ''initial'') = [cb_pass, cb_x]
   \<and> fst (fire_chain (FiredDeferred_init d_sc3 ''callback'') Screen_init 0 0 ''initial'') = Str ''x''
   \<and> Screen_map (FiredDeferred_draw (FiredDeferred_init d_sc3 ''callback'') Screen_init 0 0 ''initial'') (0, 4)
       = Some CHR ''-''
   \<and> Screen_map (FiredDeferred_draw (FiredDeferred_init d_sc3 ''callback'') Screen_init 0 0 ''initial'') (11, 12)
       = Some CHR ''-''
   \<and> fired (fire (FiredDeferred_init d_sc3 ''errback'') Screen_init 0 0 ''initial'') = [cb_pass, cb_y]
   \<and> fst (fire_chain (FiredDeferred_init d_sc3 ''errback'') Screen_init 0 0 ''initial'') = Failure ''y''
   \<and> Screen_map (FiredDeferred_draw (FiredDeferred_init d_sc3 ''errback'') Screen_init 0 0 ''initial'') (14, 4)
       = Some CHR ''-''
   \<and> Screen_map (FiredDeferred_draw (FiredDeferred_init d_sc3 ''errback'') Screen_init 0 0 ''initial'') (25, 12)
       = Some CHR ''-''"
proof -
  let ?call = "\<lambda>h r. next_res (Callback_call h r)"
  have cw: "callback_width d_sc3 = 12" by (simp add: d_sc3_def)
  have n: "length sc3 = 2" "sc3 ! 0 = (cb_pass, cb_pass)" "sc3 ! 1 = (cb_x, cb_y)"
    by (simp_all add: sc3_def)
  have run: "hs = [fst (sc3 ! 0), fst (sc3 ! 1)] \<and> r = Str ''x''
             \<and> Screen_map s (0, 4) = Some CHR ''-'' \<and> Screen_map s (11, 12) = Some CHR ''-''"
    if t: "length hs = length sc3
       \<and> (\<forall>i<length sc3. hs ! i = (if isFailure (fold ?call (take i hs) (Str ''initial''))
                                    then snd (sc3 ! i) else fst (sc3 ! i)))
       \<and> r = fold ?call hs (Str ''initial'')
       \<and> (\<forall>i<length sc3. \<forall>j<nat (callback_width d_sc3).
             Screen_map s ((if isFailure (fold ?call (take i hs) (Str ''initial''))
                            then errback_left_x (callback_width d_sc3) 0 else 0) + int j, 0 + 4 + 8 * int i)
             = Some CHR ''-'')"
    for hs r s
  proof -
    have l: "length hs = 2" using t n by simp
    have h0: "hs ! 0 = cb_pass" using t n by simp
    have t1: "take 1 hs = [cb_pass]" using l h0 by (cases hs) auto
    have h1: "hs ! 1 = cb_x"
      using conjunct1[OF conjunct2[OF t], rule_format, of 1] n t1 by (simp add: called_examples)
    have hs: "hs = [cb_pass, cb_x]" using two_elements[OF l] h0 h1 by simp
    have a: "Screen_map s (0 + int 0, 0 + 4 + 8 * int 0) = Some CHR ''-''"
      using conjunct2[OF conjunct2[OF conjunct2[OF t]], rule_format, of 0 0] n cw by simp
    have b: "Screen_map s (0 + int 11, 0 + 4 + 8 * int 1) = Some CHR ''-''"
      using conjunct2[OF conjunct2[OF conjunct2[OF t]], rule_format, of 1 11] n cw t1
      by (simp add: called_examples)
    show ?thesis using t hs a b n by (simp add: called_examples)
  qed
  have run': "hs = [snd (sc3 ! 0), snd (sc3 ! 1)] \<and> r = Failure ''y''
             \<and> Screen_map s (14, 4) = Some CHR ''-'' \<and> Screen_map s (25, 12) = Some CHR ''-''"
    if t: "length hs = length sc3
       \<and> (\<forall>i<length sc3. hs ! i = (if isFailure (fold ?call (take i hs) (Failure ''initial''))
                                    then snd (sc3 ! i) else fst (sc3 ! i)))
       \<and> r = fold ?call hs (Failure ''initial'')
       \<and> (\<forall>i<length sc3. \<forall>j<nat (callback_width d_sc3).
             Screen_map s ((if isFailure (fold ?call (take i hs) (Failure ''initial''))
                            then errback_left_x (callback_width d_sc3) 0 else 0) + int j, 0 + 4 + 8 * int i)
             = Some CHR ''-'')"
    for hs r s
  proof -
    have l: "length hs = 2" using t n by simp
    have h0: "hs ! 0 = cb_pass" using t n by simp
    have t1: "take 1 hs = [cb_pass]" using l h0 by (cases hs) auto
    have h1: "hs ! 1 = cb_y"
      using conjunct1[OF conjunct2[OF t], rule_format, of 1] n t1 by (simp add: called_examples)
    have hs: "hs = [cb_pass, cb_y]" using two_elements[OF l] h0 h1 by simp
    have a: "Screen_map s (errback_left_x 12 0 + int 0, 0 + 4 + 8 * int 0) = Some CHR ''-''"
      using conjunct2[OF conjunct2[OF conjunct2[OF t]], rule_format, of 0 0] n cw by simp
    have b: "Screen_map s (errback_left_x 12 0 + int 11, 0 + 4 + 8 * int 1) = Some CHR ''-''"
      using conjunct2[OF conjunct2[OF conjunct2[OF t]], rule_format, of 1 11] n cw t1
      by (simp add: called_examples)
    show ?thesis using t hs a b n by (simp add: called_examples errback_left_x_def)
  qed
  note c = fire_one_handler_per_pair[of sc3 d_sc3 "''callback''" Screen_init 0 0 "''initial''",
      THEN mp, OF Deferred_init_sc3]
  note e = fire_one_handler_per_pair[of sc3 d_sc3 "''errback''" Screen_init 0 0 "''initial''",
      THEN mp, OF Deferred_init_sc3]
  have c': "fired (fire (FiredDeferred_init d_sc3 ''callback'') Screen_init 0 0 ''initial'') = [fst (sc3 ! 0), fst (sc3 ! 1)]
      \<and> fst (fire_chain (FiredDeferred_init d_sc3 ''callback'') Screen_init 0 0 ''initial'') = Str ''x''
      \<and> Screen_map (FiredDeferred_draw (FiredDeferred_init d_sc3 ''callback'') Screen_init 0 0 ''initial'') (0, 4) = Some CHR ''-''
      \<and> Screen_map (FiredDeferred_draw (FiredDeferred_init d_sc3 ''callback'') Screen_init 0 0 ''initial'') (11, 12) = Some CHR ''-''"
    by (rule run) (use c in simp)
  have e': "fired (fire (FiredDeferred_init d_sc3 ''errback'') Screen_init 0 0 ''initial'') = [snd (sc3 ! 0), snd (sc3 ! 1)]
      \<and> fst (fire_chain (FiredDeferred_init d_sc3 ''errback'') Screen_init 0 0 ''initial'') = Failure ''y''
      \<and> Screen_map (FiredDeferred_draw (FiredDeferred_init d_sc3 ''errback'') Screen_init 0 0 ''initial'') (14, 4) = Some CHR ''-''
      \<and> Screen_map (FiredDeferred_draw (FiredDeferred_init d_sc3 ''errback'') Screen_init 0 0 ''initial'') (25, 12) = Some CHR ''-''"
    by (rule run') (use e in simp)
  show ?thesis using c' e' Deferred_init_sc3 n by simp
qed

section \<open>Widths\<close>

lemma wf_Callback_init: "wf_Callback (Callback_init st v)"
  by (simp add: wf_Callback_def Callback_init_def Let_def)

lemma Callback_init_min_width:
  "min_width (Callback_init st v) = int (length (Callback_repr (Callback_init st v))) + 4"
  by (simp add: Callback_init_def Let_def Callback_repr_def)

lemma wf_Callback_min_width:
  "wf_Callback cb \<Longrightarrow> min_width cb = int (length (Callback_repr cb)) + 4"
  using Callback_init_min_width[of "style cb" "cb_value cb"] by (simp add: wf_Callback_def)

lemma Deferred_init_callback_width:
  assumes "Deferred_init ps = Inr d"
  shows "callback_width d
           = Max (insert (Max (insert 0 ((\<lambda>p. min_width (fst p)) ` set ps)))
                         ((\<lambda>p. min_width (snd p)) ` set ps))"
  using assms by (auto simp: Deferred_init_def Let_def split: if_splits)

lemma callback_width_ge:
  assumes "Deferred_init ps = Inr d" "p \<in> set ps"
  shows "min_width (fst p) \<le> callback_width d" "min_width (snd p) \<le> callback_width d"
proof -
  let ?A = "(\<lambda>p. min_width (fst p)) ` set ps" and ?B = "(\<lambda>p. min_width (snd p)) ` set ps"
  have cw: "callback_width d = Max (insert (Max (insert 0 ?A)) ?B)"
    by (rule Deferred_init_callback_width[OF assms(1)])
  have "min_width (fst p) \<le> Max (insert 0 ?A)" using assms(2) by (intro Max_ge) auto
  moreover have "Max (insert 0 ?A) \<le> Max (insert (Max (insert 0 ?A)) ?B)" by (intro Max_ge) auto
  ultimately show "min_width (fst p) \<le> callback_width d" unfolding cw by linarith
  show "min_width (snd p) \<le> callback_width d" unfolding cw using assms(2) by (intro Max_ge) auto
qed

lemma callback_width_nonneg:
  assumes "Deferred_init ps = Inr d"
  shows "0 \<le> callback_width d"
proof -
  let ?A = "(\<lambda>p. min_width (fst p)) ` set ps" and ?B = "(\<lambda>p. min_width (snd p)) ` set ps"
  have cw: "callback_width d = Max (insert (Max (insert 0 ?A)) ?B)"
    by (rule Deferred_init_callback_width[OF assms(1)])
  have "0 \<le> Max (insert 0 ?A)" by (intro Max_ge) auto
  moreover have "Max (insert 0 ?A) \<le> Max (insert (Max (insert 0 ?A)) ?B)" by (intro Max_ge) auto
  ultimately show ?thesis unfolding cw by linarith
qed

lemma callback_width_Max:
  assumes d: "Deferred_init ps = Inr d"
    and wf: "\<forall>p\<in>set ps. wf_Callback (fst p) \<and> wf_Callback (snd p)"
  shows "callback_width d
           = Max (set (map (\<lambda>p. min_width (fst p)) ps @ map (\<lambda>p. min_width (snd p)) ps))"
proof -
  let ?A = "(\<lambda>p. min_width (fst p)) ` set ps" and ?B = "(\<lambda>p. min_width (snd p)) ` set ps"
  from d have ne: "ps \<noteq> []" by (auto simp: Deferred_init_def split: if_splits)
  then have neA: "?A \<noteq> {}" and neB: "?B \<noteq> {}" by auto
  have cw: "callback_width d = Max (insert (Max (insert 0 ?A)) ?B)"
    by (rule Deferred_init_callback_width[OF d])
  obtain p where p: "p \<in> set ps" using ne by (cases ps) auto
  have "0 \<le> min_width (fst p)" using wf p wf_Callback_min_width[of "fst p"] by auto
  moreover have "min_width (fst p) \<le> Max ?A" using p by (intro Max_ge) auto
  ultimately have "0 \<le> Max ?A" by linarith
  then have "Max (insert 0 ?A) = Max ?A" using neA by (simp add: max_def)
  then have "callback_width d = max (Max ?A) (Max ?B)" using neB cw by simp
  also have "\<dots> = Max (?A \<union> ?B)" using neA neB by (simp add: Max_Un)
  finally show ?thesis by simp
qed

lemma sc3_wf: "\<forall>p\<in>set sc3. wf_Callback (fst p) \<and> wf_Callback (snd p)"
  by (simp add: sc3_def cb_pass_def cb_x_def cb_y_def wf_Callback_init)

lemma sc3_min_widths:
  "min_width cb_pass = 12" "min_width cb_x = 12" "min_width cb_y = 10"
  "Callback_repr cb_pass = ''passthru''" "Callback_repr cb_x = ''return x''" "Callback_repr cb_y = ''fail y''"
  by (simp_all add: cb_pass_def cb_x_def cb_y_def Callback_init_def Callback_repr_def Let_def style_str_def)

text \<open>
  Claim C9. Every widget that \<^verbatim>\<open>Callback.__init__\<close> builds has as its minimum width the
  length of its label plus 4. The cell width of a chain is never smaller than the minimum
  width of a callback or errback of the chain, and for a chain of such widgets it is the
  maximum of the minimum widths of all its callbacks and errbacks.
\<close>

theorem min_width_callback_width:
  "wf_Callback (Callback_init st v)
   \<and> (wf_Callback cb \<longrightarrow> min_width cb = int (length (Callback_repr cb)) + 4)
   \<and> (Deferred_init ps = Inr d \<longrightarrow>
        (\<forall>p\<in>set ps. min_width (fst p) \<le> callback_width d \<and> min_width (snd p) \<le> callback_width d))
   \<and> (Deferred_init ps = Inr d \<and> (\<forall>p\<in>set ps. wf_Callback (fst p) \<and> wf_Callback (snd p)) \<longrightarrow>
        callback_width d
          = Max (set (map (\<lambda>p. min_width (fst p)) ps @ map (\<lambda>p. min_width (snd p)) ps)))"
  using wf_Callback_init[of st v] wf_Callback_min_width[of cb]
    callback_width_ge[of ps d] callback_width_Max[of ps d]
  by blast

theorem min_width_callback_width_witness:
  "wf_Callback cb_x \<and> min_width cb_x = int (length ''return x'') + 4
   \<and> Deferred_init sc3 = Inr d_sc3
   \<and> wf_Callback cb_pass \<and> wf_Callback cb_y
   \<and> min_width cb_pass \<le> callback_width d_sc3 \<and> min_width cb_x \<le> callback_width d_sc3
   \<and> min_width cb_y \<le> callback_width d_sc3
   \<and> callback_width d_sc3 = Max {12, 12, 12, 10}"
proof -
  have x: "wf_Callback cb_x" "wf_Callback cb_pass" "wf_Callback cb_y"
    by (simp_all add: cb_x_def cb_pass_def cb_y_def wf_Callback_init)
  note t = min_width_callback_width[of Return "''x''" cb_x sc3 d_sc3]
  have a: "min_width cb_x = int (length (Callback_repr cb_x)) + 4" using t x by blast
  have b: "\<forall>p\<in>set sc3. min_width (fst p) \<le> callback_width d_sc3 \<and> min_width (snd p) \<le> callback_width d_sc3"
    using t Deferred_init_sc3 by blast
  have c: "callback_width d_sc3
          = Max (set (map (\<lambda>p. min_width (fst p)) sc3 @ map (\<lambda>p. min_width (snd p)) sc3))"
    using t Deferred_init_sc3 sc3_wf by blast
  have cw: "callback_width d_sc3 = 12" by (simp add: d_sc3_def)
  show ?thesis
    using x a b c Deferred_init_sc3
    by (simp add: sc3_min_widths cw sc3_def)
qed

section \<open>Independence of the canvas\<close>

lemma Screen_rel_Callback_draw:
  "Screen_rel b s s' \<Longrightarrow> Screen_rel b (Callback_draw cb s x y w) (Callback_draw cb s' x y w)"
  by (simp add: Callback_draw_def Let_def Screen_rel_horiz Screen_rel_vert Screen_rel_text)

lemma Screen_rel_draw_value:
  "Screen_rel b s s' \<Longrightarrow> Screen_rel b (draw_value cw x0 res y s) (draw_value cw x0 res y s')"
  by (cases res) (simp_all add: draw_value_def Screen_rel_text)

lemma DrawState_rel_draw_connection:
  "DrawState_rel b st st' \<Longrightarrow> DrawState_rel b (draw_connection cw x0 x st) (draw_connection cw x0 x st')"
  by (simp add: DrawState_rel_def draw_connection_def Let_def Screen_rel_horiz Screen_rel_vert)

lemma keeps_rel_wrap_callback: "keeps_rel b (wrap_callback cw x0 cb x)"
  unfolding keeps_rel_def
proof (intro allI impI)
  fix res st st'
  assume r: "DrawState_rel b st st'"
  let ?st1 = "st\<lparr>screen := Callback_draw cb (screen st) x (last_y st) cw\<rparr>"
  let ?st1' = "st'\<lparr>screen := Callback_draw cb (screen st') x (last_y st') cw\<rparr>"
  have "DrawState_rel b ?st1 ?st1'"
    using r by (simp add: DrawState_rel_def Screen_rel_Callback_draw)
  then have c: "DrawState_rel b (draw_connection cw x0 x ?st1) (draw_connection cw x0 x ?st1')"
    by (rule DrawState_rel_draw_connection)
  have e: "last_y st = last_y st'" "fired st = fired st'"
    using r by (simp_all add: DrawState_rel_def)
  show "fst (wrap_callback cw x0 cb x res st) = fst (wrap_callback cw x0 cb x res st') \<and>
       DrawState_rel b (snd (wrap_callback cw x0 cb x res st)) (snd (wrap_callback cw x0 cb x res st'))"
    using c by (simp add: wrap_callback_def Let_def DrawState_rel_def e)
qed

lemma keeps_rel_draw_start: "keeps_rel b (draw_start cw x0 y0)"
  by (simp add: keeps_rel_def draw_start_def Let_def DrawState_rel_def Screen_rel_draw_value)

lemma DrawState_rel_draw_end:
  assumes "DrawState_rel b st st'"
  shows "DrawState_rel b (draw_end cw x0 res st) (draw_end cw x0 res st')"
proof -
  have "DrawState_rel b (st\<lparr>screen := draw_value cw x0 res (last_y st) (screen st)\<rparr>)
          (st'\<lparr>screen := draw_value cw x0 res (last_y st') (screen st')\<rparr>)"
    using assms by (simp add: DrawState_rel_def Screen_rel_draw_value)
  then show ?thesis
    by (simp add: draw_end_def Let_def DrawState_rel_draw_connection)
qed

lemma runCallbacks_respects:
  assumes "\<forall>item\<in>set cbs. keeps_rel b (fst item) \<and> keeps_rel b (snd item)"
    and "DrawState_rel b st st'"
  shows "fst (runCallbacks cbs res st) = fst (runCallbacks cbs res st')
         \<and> DrawState_rel b (snd (runCallbacks cbs res st)) (snd (runCallbacks cbs res st'))"
  using assms
proof (induction cbs arbitrary: res st st')
  case Nil
  then show ?case by simp
next
  case (Cons item cbs)
  let ?f = "if isFailure res then snd item else fst item"
  have f: "keeps_rel b ?f" using Cons.prems(1) by simp
  then have 1: "fst (?f res st) = fst (?f res st')"
    and 2: "DrawState_rel b (snd (?f res st)) (snd (?f res st'))"
    using Cons.prems(2) unfolding keeps_rel_def by blast+
  have 3: "\<forall>item\<in>set cbs. keeps_rel b (fst item) \<and> keeps_rel b (snd item)"
    using Cons.prems(1) by simp
  show ?case
    unfolding runCallbacks_Cons Let_def 1
    using Cons.IH[OF 3 2] by simp
qed

lemma make_drawing_deferred_respects:
  "\<forall>item\<in>set (make_drawing_deferred fd x y). keeps_rel b (fst item) \<and> keeps_rel b (snd item)"
  by (auto simp: make_drawing_deferred_def Let_def keeps_rel_draw_start keeps_rel_wrap_callback)

lemma fire_rel:
  assumes "Screen_rel b scr scr'"
  shows "DrawState_rel b (fire fd scr x y result) (fire fd scr' x y result)"
proof -
  let ?st = "\<lparr>screen = scr, last_x = 0, last_y = 0, fired = []\<rparr>"
  let ?st' = "\<lparr>screen = scr', last_x = 0, last_y = 0, fired = []\<rparr>"
  let ?r = "if fd_method fd = ''callback'' then Str result else Failure result"
  have r: "DrawState_rel b ?st ?st'" using assms by (simp add: DrawState_rel_def)
  note rc = runCallbacks_respects[OF make_drawing_deferred_respects r, of fd x y ?r]
  have "fst (fire_chain fd scr x y result) = fst (fire_chain fd scr' x y result)"
    and "DrawState_rel b (snd (fire_chain fd scr x y result)) (snd (fire_chain fd scr' x y result))"
    using rc by (simp_all add: fire_chain_start)
  then show ?thesis
    by (simp add: fire_def case_prod_beta DrawState_rel_draw_end)
qed

lemma FiredDeferred_draw_rel:
  "Screen_rel b scr scr' \<Longrightarrow>
     Screen_rel b (FiredDeferred_draw fd scr x y result) (FiredDeferred_draw fd scr' x y result)"
  using fire_rel[of b scr scr' fd x y result] by (simp add: FiredDeferred_draw_def DrawState_rel_def)

lemma FiredDeferred_draw_frame:
  "Screen_map (FiredDeferred_draw fd scr x y result)
     = Screen_map scr ++ Screen_map (FiredDeferred_draw fd Screen_init x y result)"
  using FiredDeferred_draw_rel[of "Screen_map scr" scr Screen_init fd x y result]
  by (simp add: Screen_rel_def Screen_map_init)

lemma Screen_str_map:
  assumes "Screen_map s = Screen_map s'"
  shows "Screen_str s = Screen_str s'"
proof -
  have k: "Screen_keys s = Screen_keys s'" using assms by (simp add: Screen_keys_dom)
  have w: "Screen_width s = Screen_width s'" and h: "Screen_height s = Screen_height s'"
    by (simp_all add: Screen_width_keys Screen_height_keys k)
  have "Screen_row s y = Screen_row s' y" for y
    using assms by (simp add: Screen_row_def w pixels_get_def Screen_map_def)
  then show ?thesis by (simp add: Screen_str_concat h)
qed

section \<open>The columns of a run\<close>

lemma cols_mono: "lo \<le> a \<Longrightarrow> b \<le> hi \<Longrightarrow> cols a b \<subseteq> cols lo hi"
  by (auto simp: cols_def)

lemma length_py_center: "int (length (py_center s w)) = max (int (length s)) w"
  by (auto simp: py_center_def Let_def max_def)

lemma keys_step:
  assumes "Screen_keys t \<subseteq> Screen_keys s \<union> cols a b" "lo \<le> a" "b \<le> hi"
  shows "Screen_keys t \<subseteq> Screen_keys s \<union> cols lo hi"
  using assms cols_mono[of lo a b hi] by blast

lemma keys_trans:
  assumes "Screen_keys t \<subseteq> Screen_keys s \<union> B" "Screen_keys s \<subseteq> Screen_keys r \<union> B"
  shows "Screen_keys t \<subseteq> Screen_keys r \<union> B"
  using assms by blast

lemma keys_horiz_in:
  "lo \<le> x \<Longrightarrow> x + w - 1 \<le> hi \<Longrightarrow>
     Screen_keys (draw_horiz_line x y w s) \<subseteq> Screen_keys s \<union> cols lo hi"
  by (rule keys_step[OF Screen_keys_horiz])

lemma keys_vert_in:
  "lo \<le> x - 1 \<Longrightarrow> x + 1 \<le> hi \<Longrightarrow>
     Screen_keys (draw_vert_line x y h a s) \<subseteq> Screen_keys s \<union> cols lo hi"
  by (rule keys_step[OF Screen_keys_vert])

lemma keys_vert_plain_in:
  "lo \<le> x \<Longrightarrow> x \<le> hi \<Longrightarrow>
     Screen_keys (draw_vert_line x y h False s) \<subseteq> Screen_keys s \<union> cols lo hi"
  by (rule keys_step[OF Screen_keys_vert_plain])

lemma keys_text_in:
  "lo \<le> x \<Longrightarrow> x + int (length t) - 1 \<le> hi \<Longrightarrow>
     Screen_keys (draw_text x y t s) \<subseteq> Screen_keys s \<union> cols lo hi"
  by (rule keys_step[OF Screen_keys_text])

lemma keys_Callback_draw:
  assumes "label_fits cw cb" "lo \<le> x" "x + cw - 1 \<le> hi"
  shows "Screen_keys (Callback_draw cb s x y cw) \<subseteq> Screen_keys s \<union> cols lo hi"
proof -
  have cw: "4 \<le> cw" and l: "int (length (py_center (Callback_repr cb) (cw - 2))) = cw - 2"
    using assms(1) by (auto simp: label_fits_def length_py_center)
  let ?s1 = "draw_horiz_line x y cw s"
  let ?s2 = "draw_horiz_line x (y + 4) cw ?s1"
  let ?s3 = "draw_vert_line x (y + 1) 3 False ?s2"
  let ?s4 = "draw_vert_line (x + cw - 1) (y + 1) 3 False ?s3"
  have 1: "Screen_keys ?s1 \<subseteq> Screen_keys s \<union> cols lo hi"
    using assms by (intro keys_horiz_in) auto
  have 2: "Screen_keys ?s2 \<subseteq> Screen_keys ?s1 \<union> cols lo hi"
    using assms by (intro keys_horiz_in) auto
  have 3: "Screen_keys ?s3 \<subseteq> Screen_keys ?s2 \<union> cols lo hi"
    using assms cw by (intro keys_vert_plain_in) auto
  have 4: "Screen_keys ?s4 \<subseteq> Screen_keys ?s3 \<union> cols lo hi"
    using assms cw by (intro keys_vert_plain_in) auto
  have 5: "Screen_keys (draw_text (x + 1) (y + 2) (py_center (Callback_repr cb) (cw - 2)) ?s4)
            \<subseteq> Screen_keys ?s4 \<union> cols lo hi"
    using assms cw by (intro keys_text_in) (auto simp: l)
  have "Callback_draw cb s x y cw = draw_text (x + 1) (y + 2) (py_center (Callback_repr cb) (cw - 2)) ?s4"
    by (simp add: Callback_draw_def Let_def)
  then show ?thesis
    using keys_trans[OF 5 keys_trans[OF 4 keys_trans[OF 3 keys_trans[OF 2 1]]]] by simp
qed

lemma keys_draw_connection:
  assumes "8 \<le> cw" "x = x0 \<or> x = errback_left_x cw x0"
  shows "Screen_keys (screen (draw_connection cw x0 x st)) \<subseteq> Screen_keys (screen st) \<union> box cw x0"
proof -
  have d: "4 \<le> cw div 2" "cw div 2 \<le> cw" using assms(1) by auto
  show ?thesis
  proof (cases "last_x st = x")
    case True
    then have "screen (draw_connection cw x0 x st)
               = draw_vert_line (x - 1 + cw div 2) (last_y st - 3) 3 True (screen st)"
      by (simp add: draw_connection_def)
    moreover have "Screen_keys (draw_vert_line (x - 1 + cw div 2) (last_y st - 3) 3 True (screen st))
               \<subseteq> Screen_keys (screen st) \<union> cols x0 (x0 + 2 * cw + 11)"
      using assms d by (intro keys_vert_in) (auto simp: errback_left_x_def)
    ultimately show ?thesis by (simp add: box_def)
  next
    case False
    let ?c = "callback_mid_x cw x0" and ?e = "errback_mid_x cw x0"
    let ?B = "cols x0 (x0 + 2 * cw + 11)"
    have c: "x0 \<le> ?c - 1" "?c + 1 \<le> x0 + 2 * cw + 11" "x0 \<le> ?e - 1" "?e + 1 \<le> x0 + 2 * cw + 11"
      using assms(1) d by (auto simp: callback_mid_x_def errback_mid_x_def errback_left_x_def)
    have v: "Screen_keys (draw_vert_line p q h a s) \<subseteq> Screen_keys s \<union> ?B"
      if "p = ?c \<or> p = ?e" for p q h a s
      using that c by (intro keys_vert_in) auto
    have h: "Screen_keys (draw_horiz_line (?c + 1) q (?e - ?c - 1) s) \<subseteq> Screen_keys s \<union> ?B" for q s
      using c by (intro keys_horiz_in) auto
    let ?s1 = "if last_x st < x
               then draw_vert_line ?e (last_y st - 2) 2 True
                      (draw_vert_line ?c (last_y st - 3) 2 False (screen st))
               else draw_vert_line ?c (last_y st - 2) 2 True
                      (draw_vert_line ?e (last_y st - 3) 2 False (screen st))"
    have s1: "Screen_keys ?s1 \<subseteq> Screen_keys (screen st) \<union> ?B"
      using v[of ?e "last_y st - 2" 2 True "draw_vert_line ?c (last_y st - 3) 2 False (screen st)"]
        v[of ?c "last_y st - 3" 2 False "screen st"]
        v[of ?c "last_y st - 2" 2 True "draw_vert_line ?e (last_y st - 3) 2 False (screen st)"]
        v[of ?e "last_y st - 3" 2 False "screen st"]
      by (auto split: if_splits)
    have "screen (draw_connection cw x0 x st)
            = draw_horiz_line (?c + 1) (last_y st - 2) (?e - ?c - 1) ?s1"
      using False by (simp add: draw_connection_def Let_def)
    then show ?thesis using h[of "last_y st - 2" ?s1] s1 by (auto simp: box_def)
  qed
qed

lemma keys_wrap_callback:
  assumes "8 \<le> cw" "label_fits cw cb" "x = x0 \<or> x = errback_left_x cw x0"
  shows "Screen_keys (screen (snd (wrap_callback cw x0 cb x res st)))
           \<subseteq> Screen_keys (screen st) \<union> box cw x0"
proof -
  let ?st1 = "st\<lparr>screen := Callback_draw cb (screen st) x (last_y st) cw\<rparr>"
  have 1: "Screen_keys (screen ?st1) \<subseteq> Screen_keys (screen st) \<union> box cw x0"
    unfolding box_def using assms
    by (simp, intro keys_Callback_draw) (auto simp: errback_left_x_def)
  have 2: "Screen_keys (screen (draw_connection cw x0 x ?st1)) \<subseteq> Screen_keys (screen ?st1) \<union> box cw x0"
    by (rule keys_draw_connection[OF assms(1,3)])
  have "screen (snd (wrap_callback cw x0 cb x res st)) = screen (draw_connection cw x0 x ?st1)"
    by (simp add: wrap_callback_def Let_def)
  then show ?thesis using keys_trans[OF 2 1] by simp
qed

lemma keys_draw_value:
  assumes "8 \<le> cw" "res_fits cw res"
  shows "Screen_keys (draw_value cw x0 res y s) \<subseteq> Screen_keys s \<union> box cw x0"
proof (cases res)
  case (Str v)
  then have "int (length (py_center v cw)) = cw"
    using assms(2) by (simp add: res_fits_def length_py_center)
  then show ?thesis
    unfolding box_def using Str assms(1)
    by (simp add: draw_value_def, intro keys_text_in) auto
next
  case (Failure m)
  then have "int (length (py_center (''Exception('' @ m @ '')'') (cw + 20))) = cw + 20"
    using assms(2) by (simp add: res_fits_def length_py_center)
  then show ?thesis
    unfolding box_def using Failure assms(1)
    by (simp add: draw_value_def, intro keys_text_in) (auto simp: errback_left_x_def)
qed

lemma keys_draw_start:
  assumes "8 \<le> cw" "res_fits cw res"
  shows "Screen_keys (screen (snd (draw_start cw x0 y0 res st))) \<subseteq> Screen_keys (screen st) \<union> box cw x0"
  using keys_draw_value[OF assms, of x0 y0 "screen st"]
  by (simp add: draw_start_def Let_def)

lemma keys_draw_end:
  assumes "8 \<le> cw" "res_fits cw res"
  shows "Screen_keys (screen (draw_end cw x0 res st)) \<subseteq> Screen_keys (screen st) \<union> box cw x0"
proof -
  let ?st1 = "st\<lparr>screen := draw_value cw x0 res (last_y st) (screen st)\<rparr>"
  have 1: "Screen_keys (screen ?st1) \<subseteq> Screen_keys (screen st) \<union> box cw x0"
    using keys_draw_value[OF assms, of x0 "last_y st" "screen st"] by simp
  have 2: "Screen_keys (screen (draw_connection cw x0 x ?st1)) \<subseteq> Screen_keys (screen ?st1) \<union> box cw x0"
    if "x = x0 \<or> x = errback_left_x cw x0" for x
    by (rule keys_draw_connection[OF assms(1) that])
  show ?thesis
  proof (cases "isFailure res")
    case True
    then have "draw_end cw x0 res st = draw_connection cw x0 (errback_left_x cw x0) ?st1"
      by (simp add: draw_end_def Let_def)
    then show ?thesis using keys_trans[OF 2[of "errback_left_x cw x0"] 1] by simp
  next
    case False
    then have "draw_end cw x0 res st = draw_connection cw x0 x0 ?st1"
      by (simp add: draw_end_def Let_def)
    then show ?thesis using keys_trans[OF 2[of x0] 1] by simp
  qed
qed

lemma res_fits_call:
  assumes "label_fits cw cb" "res_fits cw res"
  shows "res_fits cw (next_res (Callback_call cb res))"
  using assms
  by (cases "style cb")
     (auto simp: label_fits_def res_fits_def next_res_def Callback_call_def Callback_repr_def style_str_def)

lemma keys_wrap_pairs:
  assumes "8 \<le> cw" "\<forall>p\<in>set ps. label_fits cw (fst p) \<and> label_fits cw (snd p)" "res_fits cw res"
  shows "Screen_keys (screen (snd (runCallbacks (wrap_pairs cw x0 ps) res st)))
           \<subseteq> Screen_keys (screen st) \<union> box cw x0
         \<and> res_fits cw (fst (runCallbacks (wrap_pairs cw x0 ps) res st))"
  using assms(2,3)
proof (induction ps arbitrary: res st)
  case Nil
  then show ?case by (simp add: wrap_pairs_def)
next
  case (Cons pair ps)
  let ?cb = "if isFailure res then snd pair else fst pair"
  let ?x = "if isFailure res then errback_left_x cw x0 else x0"
  let ?st' = "snd (wrap_callback cw x0 ?cb ?x res st)"
  let ?res' = "next_res (Callback_call ?cb res)"
  have unf: "wrap_pairs cw x0 (pair # ps) = (wrap_callback cw x0 (fst pair) x0,
                       wrap_callback cw x0 (snd pair) (errback_left_x cw x0)) # wrap_pairs cw x0 ps"
    by (simp add: wrap_pairs_def)
  have step: "runCallbacks (wrap_pairs cw x0 (pair # ps)) res st
                = runCallbacks (wrap_pairs cw x0 ps) ?res' ?st'"
    unfolding unf runCallbacks_Cons by (simp add: Let_def)
  have lf: "label_fits cw ?cb" using Cons.prems(1) by simp
  have 1: "Screen_keys (screen ?st') \<subseteq> Screen_keys (screen st) \<union> box cw x0"
    by (rule keys_wrap_callback[OF assms(1) lf]) simp
  have rf: "res_fits cw ?res'" by (rule res_fits_call[OF lf Cons.prems(2)])
  have rest: "\<forall>p\<in>set ps. label_fits cw (fst p) \<and> label_fits cw (snd p)"
    using Cons.prems(1) by simp
  note ih = Cons.IH[OF rest rf, of ?st']
  show ?case unfolding step using ih keys_trans[OF conjunct1[OF ih] 1] by simp
qed

lemma keys_fire:
  assumes "8 \<le> callback_width (deferred fd)"
    "\<forall>p\<in>set (pairs (deferred fd)). label_fits (callback_width (deferred fd)) (fst p)
        \<and> label_fits (callback_width (deferred fd)) (snd p)"
    "int (length result) \<le> callback_width (deferred fd)"
  shows "Screen_keys (FiredDeferred_draw fd scr x y result)
           \<subseteq> Screen_keys scr \<union> box (callback_width (deferred fd)) x"
proof -
  let ?cw = "callback_width (deferred fd)"
  let ?r = "if fd_method fd = ''callback'' then Str result else Failure result"
  let ?st0 = "\<lparr>screen = scr, last_x = 0, last_y = 0, fired = []\<rparr>"
  let ?st1 = "snd (draw_start ?cw x y ?r ?st0)"
  let ?run = "runCallbacks (wrap_pairs ?cw x (pairs (deferred fd))) ?r ?st1"
  have r0: "res_fits ?cw ?r" using assms(3) by (simp add: res_fits_def)
  have fc: "fire_chain fd scr x y result = ?run"
    unfolding fire_chain_start make_drawing_deferred_wrap runCallbacks_Cons
    by (simp add: Let_def next_res_def)
  have 1: "Screen_keys (screen ?st1) \<subseteq> Screen_keys scr \<union> box ?cw x"
    using keys_draw_start[OF assms(1) r0, of x y ?st0] by simp
  note wp = keys_wrap_pairs[OF assms(1,2) r0, of x ?st1]
  have 2: "Screen_keys (screen (snd ?run)) \<subseteq> Screen_keys scr \<union> box ?cw x"
    using keys_trans[OF conjunct1[OF wp] 1] .
  have 3: "Screen_keys (screen (draw_end ?cw x (fst ?run) (snd ?run)))
             \<subseteq> Screen_keys (screen (snd ?run)) \<union> box ?cw x"
    by (rule keys_draw_end[OF assms(1) conjunct2[OF wp]])
  have "FiredDeferred_draw fd scr x y result = screen (draw_end ?cw x (fst ?run) (snd ?run))"
    by (simp add: FiredDeferred_draw_def fire_def fc case_prod_beta)
  then show ?thesis using keys_trans[OF 3 2] by simp
qed

lemma Callback_repr_length: "5 \<le> length (Callback_repr cb)"
  by (cases "style cb") (simp_all add: Callback_repr_def style_str_def)

lemma Deferred_init_width: "Deferred_init ps = Inr d \<Longrightarrow> width d = callback_width d * 2 + 2"
  by (auto simp: Deferred_init_def Let_def split: if_splits)

lemma Deferred_init_fits:
  assumes d: "Deferred_init ps = Inr d"
    and wf: "\<forall>p\<in>set ps. wf_Callback (fst p) \<and> wf_Callback (snd p)"
  shows "9 \<le> callback_width d"
    and "\<forall>p\<in>set (pairs d). label_fits (callback_width d) (fst p) \<and> label_fits (callback_width d) (snd p)"
proof -
  from d have ne: "ps \<noteq> []" by (auto simp: Deferred_init_def split: if_splits)
  then obtain p where p: "p \<in> set ps" by (cases ps) auto
  have "9 \<le> min_width (fst p)"
    using wf p wf_Callback_min_width[of "fst p"] Callback_repr_length[of "fst p"] by auto
  then show "9 \<le> callback_width d" using callback_width_ge(1)[OF d p] by linarith
  show "\<forall>p\<in>set (pairs d). label_fits (callback_width d) (fst p) \<and> label_fits (callback_width d) (snd p)"
  proof
    fix q assume "q \<in> set (pairs d)"
    then have q: "q \<in> set ps" using Deferred_init_pairs_eq[OF d] by simp
    have "min_width (fst q) = int (length (Callback_repr (fst q))) + 4"
      "min_width (snd q) = int (length (Callback_repr (snd q))) + 4"
      using wf q wf_Callback_min_width by auto
    then show "label_fits (callback_width d) (fst q) \<and> label_fits (callback_width d) (snd q)"
      using callback_width_ge[OF d q] by (simp add: label_fits_def)
  qed
qed

lemma runs_keys:
  assumes d: "Deferred_init ps = Inr d"
    and wf: "\<forall>p\<in>set ps. wf_Callback (fst p) \<and> wf_Callback (snd p)"
  shows "Screen_keys (first_run d) \<subseteq> cols 0 (width d + 9)"
    and "Screen_keys (second_run d) \<subseteq> cols (width d + 12) (2 * width d + 21)"
proof -
  note f = Deferred_init_fits[OF d wf]
  have w: "width d = callback_width d * 2 + 2" by (rule Deferred_init_width[OF d])
  have k: "Screen_keys (FiredDeferred_draw (FiredDeferred_init d m) Screen_init x 0 ''initial'')
             \<subseteq> box (callback_width d) x" for m x
    using keys_fire[of "FiredDeferred_init d m" "''initial''" Screen_init x 0] f
    by (simp add: FiredDeferred_init_def Screen_keys_def Screen_init_def)
  have "box (callback_width d) 0 = cols 0 (width d + 9)"
    by (simp add: box_def w algebra_simps)
  then show "Screen_keys (first_run d) \<subseteq> cols 0 (width d + 9)"
    using k[of "''callback''" 0] by (simp add: first_run_def)
  have "box (callback_width d) (width d + 12) = cols (width d + 12) (2 * width d + 21)"
    by (simp add: box_def w)
  then show "Screen_keys (second_run d) \<subseteq> cols (width d + 12) (2 * width d + 21)"
    using k[of "''errback''" "width d + 12"] by (simp add: second_run_def)
qed

lemma cols_disjoint: "b < c \<Longrightarrow> cols a b \<inter> cols c e = {}"
  by (auto simp: cols_def)

lemma main_screen_runs:
  "Screen_map (main_screen d) = Screen_map (first_run d) ++ Screen_map (second_run d)"
  using FiredDeferred_draw_frame[of "FiredDeferred_init d ''errback''" "first_run d" "width d + 12" 0 "''initial''"]
  by (simp add: main_screen_def Let_def first_run_def second_run_def)

text \<open>
  Claim C7. For a chain of widgets as \<^verbatim>\<open>Callback.__init__\<close> builds them, the run fired
  with a value at x = 0 writes only cells of the columns 0 to width + 9, and the run fired
  with a failure at x = width + 12 writes only cells of the columns width + 12 to
  2 * width + 21: no cell is written by both. On whatever canvas the second run draws, it
  writes the same cells with the same characters and leaves all others as they were, so the
  shared canvas of \<^verbatim>\<open>main\<close> holds the drawing of the first run and, beside it, that of
  the second.
\<close>

theorem runs_do_not_overlap:
  "Deferred_init ps = Inr d \<and> (\<forall>p\<in>set ps. wf_Callback (fst p) \<and> wf_Callback (snd p)) \<longrightarrow>
     Screen_keys (first_run d) \<inter> Screen_keys (second_run d) = {}
     \<and> Screen_keys (first_run d) \<subseteq> cols 0 (width d + 9)
     \<and> Screen_keys (second_run d) \<subseteq> cols (width d + 12) (2 * width d + 21)
     \<and> Screen_map (main_screen d) = Screen_map (first_run d) ++ Screen_map (second_run d)
     \<and> Screen_map (FiredDeferred_draw (FiredDeferred_init d ''errback'') scr (width d + 12) 0 ''initial'')
         = Screen_map scr ++ Screen_map (second_run d)"
proof (intro impI, elim conjE)
  assume d: "Deferred_init ps = Inr d"
    and wf: "\<forall>p\<in>set ps. wf_Callback (fst p) \<and> wf_Callback (snd p)"
  note k = runs_keys[OF d wf]
  have "cols 0 (width d + 9) \<inter> cols (width d + 12) (2 * width d + 21) = {}"
    by (rule cols_disjoint) simp
  then have "Screen_keys (first_run d) \<inter> Screen_keys (second_run d) = {}"
    using k by blast
  moreover have "Screen_map (FiredDeferred_draw (FiredDeferred_init d ''errback'') scr (width d + 12) 0 ''initial'')
         = Screen_map scr ++ Screen_map (second_run d)"
    using FiredDeferred_draw_frame[of "FiredDeferred_init d ''errback''" scr "width d + 12" 0 "''initial''"]
    by (simp add: second_run_def)
  ultimately show "Screen_keys (first_run d) \<inter> Screen_keys (second_run d) = {}
     \<and> Screen_keys (first_run d) \<subseteq> cols 0 (width d + 9)
     \<and> Screen_keys (second_run d) \<subseteq> cols (width d + 12) (2 * width d + 21)
     \<and> Screen_map (main_screen d) = Screen_map (first_run d) ++ Screen_map (second_run d)
     \<and> Screen_map (FiredDeferred_draw (FiredDeferred_init d ''errback'') scr (width d + 12) 0 ''initial'')
         = Screen_map scr ++ Screen_map (second_run d)"
    using k main_screen_runs[of d] by simp
qed

theorem runs_do_not_overlap_witness:
  "Deferred_init sc3 = Inr d_sc3
   \<and> wf_Callback cb_pass \<and> wf_Callback cb_x \<and> wf_Callback cb_y
   \<and> Screen_keys (first_run d_sc3) \<inter> Screen_keys (second_run d_sc3) = {}
   \<and> Screen_keys (first_run d_sc3) \<subseteq> cols 0 35
   \<and> Screen_keys (second_run d_sc3) \<subseteq> cols 38 73"
proof -
  have x: "wf_Callback cb_x" "wf_Callback cb_pass" "wf_Callback cb_y"
    by (simp_all add: cb_x_def cb_pass_def cb_y_def wf_Callback_init)
  have w: "width d_sc3 = 26" by (simp add: d_sc3_def)
  show ?thesis
    using runs_do_not_overlap[of sc3 d_sc3 Screen_init] Deferred_init_sc3 sc3_wf x
    by (simp add: w)
qed

end
